theory Spec2Isabelle
  imports Complex_Main "HOL-Library.Log_Nat"
begin

section \<open>Python exceptions\<close>

text \<open>
  The exceptions that the modelled code paths can raise.  A function that may raise returns
  \<open>error + 'a\<close>, with \<open>Inl\<close> for the exception.
\<close>

datatype error =
    ValueError
  | ZeroDivisionError
  | UnboundLocalError
  | AssertionError
  | TypeError
  | IndexError
  | OverflowError
  | NonFinite  \<comment> \<open>not an exception: a tensor became \<open>nan\<close> or \<open>inf\<close>, which the model does not follow\<close>

section \<open>Floating-point numbers\<close>

text \<open>
  A Python \<open>float\<close> is an IEEE-754 binary64 value: a finite number, which is a rational, an
  infinity or NaN.  The two zeros are not distinguished; they compare equal.
\<close>

datatype ieee = Finite rat | PInf | MInf | NaN

definition round_half_even :: "rat \<Rightarrow> int" where
  "round_half_even q =
     (let f = \<lfloor>q\<rfloor>; r = q - of_int f
      in if r < 1 / 2 then f else if 1 / 2 < r then f + 1 else if even f then f else f + 1)"

text \<open>For \<open>0 < q\<close>, \<open>ilog2 q\<close> is the exponent \<open>e\<close> with \<open>2 powi e \<le> q < 2 powi (e + 1)\<close>.\<close>

definition ilog2 :: "rat \<Rightarrow> int" where
  "ilog2 q =
     (let (a, b) = quotient_of q; d = bitlen a - bitlen b
      in if 2 powi d \<le> q then d else d - 1)"

definition round_to_quantum :: "rat \<Rightarrow> rat \<Rightarrow> rat" where
  "round_to_quantum ulp q = of_int (round_half_even (q / ulp)) * ulp"

text \<open>
  Rounding to nearest, ties to even, to \<open>p\<close> significant bits with gradual underflow below
  \<open>2 powi emin\<close> and no bound on the exponent above.
\<close>

definition round_nearest_even :: "int \<Rightarrow> int \<Rightarrow> rat \<Rightarrow> rat" where
  "round_nearest_even p emin q =
     (if q = 0 then 0
      else round_to_quantum (2 powi (max (ilog2 \<bar>q\<bar>) emin - (p - 1))) q)"

text \<open>
  A rounded result whose exponent exceeds \<open>emax\<close>, that is one of magnitude
  \<open>2 powi (emax + 1)\<close> or more, overflows to the infinity of its sign.
\<close>

definition overflow :: "int \<Rightarrow> rat \<Rightarrow> ieee" where
  "overflow emax r =
     (if r = 0 \<or> ilog2 \<bar>r\<bar> \<le> emax then Finite r
      else if 0 < r then PInf else MInf)"

text \<open>
  The rounding of binary64, the \<open>float\<close> of Python, and of binary32, the
  \<^verbatim>\<open>tf.float32\<close> of the patch variable: first to the precision of the format, then the
  test for overflow.
\<close>

definition float64 :: "rat \<Rightarrow> rat" where
  "float64 = round_nearest_even 53 (- 1022)"

definition float32 :: "rat \<Rightarrow> rat" where
  "float32 = round_nearest_even 24 (- 126)"

definition round_binary64 :: "rat \<Rightarrow> ieee" where
  "round_binary64 q = overflow 1023 (float64 q)"

definition round_binary32 :: "rat \<Rightarrow> ieee" where
  "round_binary32 q = overflow 127 (float32 q)"

text \<open>The values of the \<open>float\<close> type: the infinities, NaN and the finite binary64 numbers.\<close>

definition is_binary64 :: "ieee \<Rightarrow> bool" where
  "is_binary64 x = (case x of Finite q \<Rightarrow> round_binary64 q = Finite q | _ \<Rightarrow> True)"

text \<open>
  The arithmetic of Python on floats.  The functions take the rounding \<open>fl\<close> of an exact
  finite result as their first argument: it is \<open>round_binary64\<close> in CPython, and \<open>Finite\<close>
  is exact arithmetic.  \<^verbatim>\<open>x + y\<close>: NaN propagates, the sum of the two different
  infinities is NaN, and a finite sum is rounded.
\<close>

fun float_add :: "(rat \<Rightarrow> ieee) \<Rightarrow> ieee \<Rightarrow> ieee \<Rightarrow> ieee" where
  "float_add fl NaN y = NaN"
| "float_add fl x NaN = NaN"
| "float_add fl PInf MInf = NaN"
| "float_add fl MInf PInf = NaN"
| "float_add fl PInf y = PInf"
| "float_add fl x PInf = PInf"
| "float_add fl MInf y = MInf"
| "float_add fl x MInf = MInf"
| "float_add fl (Finite a) (Finite b) = fl (a + b)"

text \<open>\<^verbatim>\<open>x <= y\<close>: every comparison with NaN is false.\<close>

fun float_le :: "ieee \<Rightarrow> ieee \<Rightarrow> bool" where
  "float_le NaN y = False"
| "float_le x NaN = False"
| "float_le MInf y = True"
| "float_le x PInf = True"
| "float_le PInf y = False"
| "float_le x MInf = False"
| "float_le (Finite a) (Finite b) = (a \<le> b)"

text \<open>
  \<^verbatim>\<open>x / n\<close> for a float \<open>x\<close> and an \<open>int\<close> \<open>n\<close>: division by zero raises, the integer is
  converted to a float, which raises \<^verbatim>\<open>OverflowError\<close> if it is too large, and the
  quotient is rounded.
\<close>

definition float_truediv :: "(rat \<Rightarrow> ieee) \<Rightarrow> ieee \<Rightarrow> int \<Rightarrow> error + ieee" where
  "float_truediv fl x n =
     (if n = 0 then Inl ZeroDivisionError
      else case fl (of_int n) of
             Finite m \<Rightarrow>
               Inr (case x of
                      Finite a \<Rightarrow> fl (a / m)
                    | PInf \<Rightarrow> if 0 < m then PInf else MInf
                    | MInf \<Rightarrow> if 0 < m then MInf else PInf
                    | NaN \<Rightarrow> NaN)
           | _ \<Rightarrow> Inl OverflowError)"

section \<open>The linear certification schedule\<close>

text \<open>
  \<^verbatim>\<open>class DefaultLinearScheduler\<close>: the constructor stores its two arguments, and
  \<^verbatim>\<open>step\<close> executes \<^verbatim>\<open>self.bound += self.step_per_epoch; return self.bound\<close>.
\<close>

record DefaultLinearScheduler =
  step_per_epoch :: ieee
  bound :: ieee

definition DefaultLinearScheduler_init :: "ieee \<Rightarrow> ieee \<Rightarrow> DefaultLinearScheduler" where
  "DefaultLinearScheduler_init step_per_epoch' initial_bound =
     \<lparr>step_per_epoch = step_per_epoch', bound = initial_bound\<rparr>"

definition step :: "(rat \<Rightarrow> ieee) \<Rightarrow> DefaultLinearScheduler \<Rightarrow> ieee \<times> DefaultLinearScheduler" where
  "step fl s =
     (let b = float_add fl (DefaultLinearScheduler.bound s) (step_per_epoch s)
      in (b, s\<lparr>DefaultLinearScheduler.bound := b\<rparr>))"

text \<open>\<open>steps fl n s\<close> is the scheduler after \<open>n\<close> successive calls of \<^verbatim>\<open>step\<close>.\<close>

fun steps :: "(rat \<Rightarrow> ieee) \<Rightarrow> nat \<Rightarrow> DefaultLinearScheduler \<Rightarrow> DefaultLinearScheduler" where
  "steps fl 0 s = s"
| "steps fl (Suc n) s = steps fl n (snd (step fl s))"

text \<open>
  The scheduler that \<^verbatim>\<open>fit\<close> builds when no schedule was supplied:
  \<^verbatim>\<open>DefaultLinearScheduler(step_per_epoch=self.bound / epochs, initial_bound=0.0)\<close>.
\<close>

definition default_schedule :: "(rat \<Rightarrow> ieee) \<Rightarrow> ieee \<Rightarrow> int \<Rightarrow> error + DefaultLinearScheduler" where
  "default_schedule fl bnd epochs =
     (case float_truediv fl bnd epochs of
        Inl e \<Rightarrow> Inl e
      | Inr q \<Rightarrow> Inr (DefaultLinearScheduler_init q (Finite 0)))"

section \<open>The certified adversarial trainer\<close>

subsection \<open>Trainer, classifier and local state\<close>

text \<open>
  The attributes that \<^verbatim>\<open>AdversarialTrainerCertified.__init__\<close> stores.  Of
  \<^verbatim>\<open>pgd_params\<close> only \<^verbatim>\<open>"batch_size"\<close> takes part in the control flow of
  \<^verbatim>\<open>fit\<close>.  A user-supplied certification schedule is any object with a
  \<^verbatim>\<open>step\<close> method, here of type \<open>'s\<close>.
\<close>

record ('x, 's) AdversarialTrainerCertified =
  nb_epochs :: "int option"
  bound :: ieee
  loss_weighting :: rat
  batch_size :: "int option"
  concrete_to_zonotope :: "('x \<Rightarrow> ieee \<Rightarrow> 'x) option"
  use_certification_schedule :: bool
  certification_schedule :: "'s option"
  pgd_batch_size :: int

text \<open>
  The framework state \<open>'w\<close> stands for everything the deep-learning framework holds: the
  parameters of the network, their gradient buffers, the state of the optimizer and of the
  random number generators.  The methods of the wrapped classifier and the library functions
  that \<^verbatim>\<open>fit\<close> calls are parameters of the model, collected in a record; samples have
  type \<open>'x\<close>, labels are class indices, and \<open>'z\<close> is the output \<^verbatim>\<open>(bias, eps)\<close> of the
  abstract forward pass.
\<close>

record 'w optimizer =
  zero_grad :: "'w \<Rightarrow> 'w"
  optimizer_step :: "'w \<Rightarrow> 'w"

record ('w, 'x, 'z) certifier =
  optimizer :: "'w optimizer option"
  nb_classes :: nat
  train :: "bool \<Rightarrow> 'w \<Rightarrow> 'w"
  forward_argmax :: "'w \<Rightarrow> 'x \<Rightarrow> nat"
    \<comment> \<open>\<^verbatim>\<open>torch.argmax(model.forward(sample))\<close> in concrete mode\<close>
  forward_abstract :: "'w \<Rightarrow> 'x \<Rightarrow> ieee \<Rightarrow> 'z"
    \<comment> \<open>\<^verbatim>\<open>pre_process\<close> of the sample with \<^verbatim>\<open>np.eye(...) * bound\<close>, then the abstract forward pass\<close>
  max_logit_loss :: "'z \<Rightarrow> nat \<Rightarrow> rat"
  interval_loss_cce :: "'z \<Rightarrow> nat \<Rightarrow> rat"
  certify_via_subtraction :: "nat \<Rightarrow> nat \<Rightarrow> 'z \<Rightarrow> bool"
    \<comment> \<open>arguments \<^verbatim>\<open>predicted_class\<close>, \<^verbatim>\<open>class_to_consider\<close>, then \<^verbatim>\<open>(cent, eps)\<close>\<close>
  random_shuffle :: "'w \<Rightarrow> nat list \<Rightarrow> nat list \<times> 'w"
    \<comment> \<open>\<^verbatim>\<open>random.shuffle(ind)\<close>\<close>
  shuffle :: "'w \<Rightarrow> ('x \<times> nat) list \<Rightarrow> ('x \<times> nat) list \<times> 'w"
    \<comment> \<open>\<^verbatim>\<open>sklearn.utils.shuffle(x_cert, y_cert)\<close>, which permutes both arrays alike\<close>
  generate :: "'w \<Rightarrow> 'x list \<Rightarrow> nat list \<Rightarrow> 'x list \<times> 'w"
    \<comment> \<open>\<^verbatim>\<open>ProjectedGradientDescent(...).generate(i_batch, y=o_batch)\<close>\<close>
  model_zero_grad :: "'w \<Rightarrow> 'w"
  concrete_loss :: "'w \<Rightarrow> 'x list \<Rightarrow> nat list \<Rightarrow> rat"
    \<comment> \<open>\<^verbatim>\<open>concrete_loss(model.forward(i_batch), o_batch)\<close>\<close>
  backward :: "'w \<Rightarrow> rat \<Rightarrow> 'w"
    \<comment> \<open>\<^verbatim>\<open>loss.backward()\<close>; the loss tensor is represented by its value\<close>

datatype forward_mode = Concrete | Abstract

text \<open>The calls into the framework that an execution of \<^verbatim>\<open>fit\<close> makes, in order.\<close>

datatype event =
    TrainMode bool
  | CertificationScheduleStep
  | RandomShuffle
  | ZeroGrad
  | Shuffle
  | SetForwardMode forward_mode
  | CertifyViaSubtraction nat nat
  | Generate
  | ModelZeroGrad
  | Backward
  | OptimizerStep
  | SchedulerStep

text \<open>
  The argument \<^verbatim>\<open>certification_loss\<close> is one of two names or a function; any other
  string is not callable.
\<close>

datatype 'z certification_loss =
    LossName string
  | LossFunction "'z \<Rightarrow> nat \<Rightarrow> rat"

text \<open>
  The local variables of \<^verbatim>\<open>fit\<close> that change during training, the framework state and
  the trace of calls.  A local variable that the code may read before any assignment has an
  option type, \<open>None\<close> meaning unbound.
\<close>

record ('w, 'x) fit_state =
  world :: 'w
  x_cert :: "('x \<times> nat) list"
  ind :: "nat list"
  certification_schedule_function :: "DefaultLinearScheduler option"
  bound :: "ieee option"
  certified_loss :: rat
  samples_certified :: nat
  trace :: "event list"

type_synonym ('w, 'x) outcome = "error option \<times> ('w, 'x) fit_state"

subsection \<open>One sample of the certified loss\<close>

definition emit :: "event \<Rightarrow> ('w, 'x) fit_state \<Rightarrow> ('w, 'x) fit_state" where
  "emit ev s = s\<lparr>trace := trace s @ [ev]\<rparr>"

text \<open>
  \<^verbatim>\<open>for k in range(nb_classes): if k != concrete_pred: certification_results.append(...)\<close>.
  The accumulator holds \<^verbatim>\<open>certification_results\<close> and the trace.
\<close>

fun certification_loop ::
  "('w, 'x, 'z) certifier \<Rightarrow> nat \<Rightarrow> 'z \<Rightarrow> nat list \<Rightarrow> bool list \<times> event list
     \<Rightarrow> bool list \<times> event list" where
  "certification_loop C concrete_pred z [] acc = acc"
| "certification_loop C concrete_pred z (k # ks) (certification_results, tr) =
     (if k \<noteq> concrete_pred
      then certification_loop C concrete_pred z ks
             (certification_results @ [certify_via_subtraction C concrete_pred k z],
              tr @ [CertifyViaSubtraction concrete_pred k])
      else certification_loop C concrete_pred z ks (certification_results, tr))"

text \<open>The three branches on \<^verbatim>\<open>certification_loss\<close>.\<close>

definition loss_term ::
  "('w, 'x, 'z) certifier \<Rightarrow> 'z certification_loss \<Rightarrow> 'z \<Rightarrow> nat \<Rightarrow> error + rat" where
  "loss_term C certification_loss z label =
     (case certification_loss of
        LossName name \<Rightarrow>
          if name = ''max_logit_loss'' then Inr (max_logit_loss C z label)
          else if name = ''interval_loss_cce'' then Inr (interval_loss_cce C z label)
          else Inl TypeError
      | LossFunction f \<Rightarrow> Inr (f z label))"

text \<open>
  The body of the loop over the samples, up to the test that leaves the loop.  With a
  user-supplied \<^verbatim>\<open>concrete_to_zonotope\<close> the variable \<^verbatim>\<open>eps_bound\<close> is never
  assigned, and the abstract forward pass reads it.
\<close>

definition sample_body ::
  "('x, 's) AdversarialTrainerCertified \<Rightarrow> ('w, 'x, 'z) certifier \<Rightarrow> 'z certification_loss
     \<Rightarrow> 'x \<Rightarrow> nat \<Rightarrow> ('w, 'x) fit_state \<Rightarrow> ('w, 'x) outcome" where
  "sample_body T C certification_loss sample label s =
     (let s1 = emit (SetForwardMode Concrete) s;
          concrete_pred = forward_argmax C (world s1) sample
      in case fit_state.bound s1 of
           None \<Rightarrow> (Some UnboundLocalError, s1)
         | Some b \<Rightarrow>
             (case concrete_to_zonotope T of
                Some f \<Rightarrow> (Some UnboundLocalError, emit (SetForwardMode Abstract) s1)
              | None \<Rightarrow>
                  (let s2 = emit (SetForwardMode Abstract) s1;
                       z = forward_abstract C (world s2) sample b
                   in case loss_term C certification_loss z label of
                        Inl e \<Rightarrow> (Some e, s2)
                      | Inr l \<Rightarrow>
                          (let s3 = s2\<lparr>certified_loss := certified_loss s2 + l\<rparr>;
                               (certification_results, tr) =
                                 certification_loop C concrete_pred z [0..<nb_classes C] ([], trace s3);
                               s4 = s3\<lparr>trace := tr\<rparr>
                           in (None,
                               if list_all id certification_results
                               then s4\<lparr>samples_certified := samples_certified s4 + 1\<rparr>
                               else s4)))))"

text \<open>
  \<^verbatim>\<open>for i, (sample, label) in enumerate(zip(x_cert, y_cert))\<close>, left by
  \<^verbatim>\<open>if (i + 1) % batch_size == 0 and i > 0: break\<close>.  The remainder is computed first:
  it raises for a zero \<^verbatim>\<open>batch_size\<close> and for \<^verbatim>\<open>None\<close>.  Python's \<^verbatim>\<open>%\<close> on
  integers is the floored remainder, as \<open>mod\<close> on \<open>int\<close>.
\<close>

fun sample_loop ::
  "('x, 's) AdversarialTrainerCertified \<Rightarrow> ('w, 'x, 'z) certifier \<Rightarrow> 'z certification_loss
     \<Rightarrow> int option \<Rightarrow> nat \<Rightarrow> ('x \<times> nat) list \<Rightarrow> ('w, 'x) fit_state \<Rightarrow> ('w, 'x) outcome" where
  "sample_loop T C certification_loss batch_size' i [] s = (None, s)"
| "sample_loop T C certification_loss batch_size' i ((sample, label) # rest) s =
     (case sample_body T C certification_loss sample label s of
        (Some e, s') \<Rightarrow> (Some e, s')
      | (None, s') \<Rightarrow>
          (case batch_size' of
             None \<Rightarrow> (Some TypeError, s')
           | Some b \<Rightarrow>
               if b = 0 then (Some ZeroDivisionError, s')
               else if (int i + 1) mod b = 0 \<and> 0 < i then (None, s')
               else sample_loop T C certification_loss batch_size' (Suc i) rest s'))"

subsection \<open>Batches, epochs and \<^verbatim>\<open>fit\<close>\<close>

text \<open>
  \<^verbatim>\<open>certified_loss /= batch_size\<close>.  Dividing a tensor by \<^verbatim>\<open>None\<close> raises; dividing
  it by zero gives \<^verbatim>\<open>nan\<close> or \<^verbatim>\<open>inf\<close>.
\<close>

definition divide_certified_loss :: "int option \<Rightarrow> ('w, 'x) fit_state \<Rightarrow> ('w, 'x) outcome" where
  "divide_certified_loss batch_size' s =
     (case batch_size' of
        None \<Rightarrow> (Some TypeError, s)
      | Some b \<Rightarrow>
          if b = 0 then (Some NonFinite, s)
          else (None, s\<lparr>certified_loss := certified_loss s / of_int b\<rparr>))"

text \<open>
  \<^verbatim>\<open>x_preprocessed[ind[m * n : (m + 1) * n]]\<close> for the batch size \<open>n\<close> of the attack,
  which is positive wherever a batch is processed.  An index beyond the data raises.
\<close>

definition batch_indices :: "nat list \<Rightarrow> nat \<Rightarrow> nat \<Rightarrow> nat list" where
  "batch_indices ind' m n = take n (drop (m * n) ind')"

definition select :: "'a list \<Rightarrow> nat list \<Rightarrow> error + 'a list" where
  "select xs idx =
     (if list_all (\<lambda>i. i < length xs) idx then Inr (map (\<lambda>i. xs ! i) idx) else Inl IndexError)"

text \<open>The concrete part of a batch: the adversarial examples, the combined loss, the update.\<close>

definition pgd_part ::
  "('x, 's) AdversarialTrainerCertified \<Rightarrow> ('w, 'x, 'z) certifier \<Rightarrow> 'w optimizer
     \<Rightarrow> ('x \<times> nat) list \<Rightarrow> nat \<Rightarrow> ('w, 'x) fit_state \<Rightarrow> ('w, 'x) outcome" where
  "pgd_part T C opt data m s =
     (case select data (batch_indices (ind s) m (nat (pgd_batch_size T))) of
        Inl e \<Rightarrow> (Some e, s)
      | Inr batch \<Rightarrow>
          (let i_batch = map fst batch; o_batch = map snd batch;
               s1 = emit (SetForwardMode Concrete) s;
               (i_batch', w1) = generate C (world s1) i_batch o_batch;
               s2 = emit Generate (s1\<lparr>world := w1\<rparr>);
               s3 = emit ModelZeroGrad (s2\<lparr>world := model_zero_grad C (world s2)\<rparr>);
               pgd_loss = concrete_loss C (world s3) i_batch' o_batch;
               loss = certified_loss s3 * loss_weighting T + pgd_loss * (1 - loss_weighting T);
               s4 = emit Backward (s3\<lparr>world := backward C (world s3) loss\<rparr>);
               s5 = emit OptimizerStep (s4\<lparr>world := optimizer_step opt (world s4)\<rparr>)
           in (None, s5)))"

text \<open>The body of \<^verbatim>\<open>for m in pbar\<close>.\<close>

definition batch_body ::
  "('x, 's) AdversarialTrainerCertified \<Rightarrow> ('w, 'x, 'z) certifier \<Rightarrow> 'w optimizer
     \<Rightarrow> 'z certification_loss \<Rightarrow> int option \<Rightarrow> ('x \<times> nat) list \<Rightarrow> nat
     \<Rightarrow> ('w, 'x) fit_state \<Rightarrow> ('w, 'x) outcome" where
  "batch_body T C opt certification_loss batch_size' data m s =
     (let s1 = s\<lparr>certified_loss := 0, samples_certified := 0\<rparr>;
          s2 = emit ZeroGrad (s1\<lparr>world := zero_grad opt (world s1)\<rparr>);
          (xy, w) = shuffle C (world s2) (x_cert s2);
          s3 = emit Shuffle (s2\<lparr>world := w, x_cert := xy\<rparr>)
      in case sample_loop T C certification_loss batch_size' 0 (x_cert s3) s3 of
           (Some e, s4) \<Rightarrow> (Some e, s4)
         | (None, s4) \<Rightarrow>
             (case divide_certified_loss batch_size' s4 of
                (Some e, s5) \<Rightarrow> (Some e, s5)
              | (None, s5) \<Rightarrow> pgd_part T C opt data m s5))"

fun batch_loop ::
  "('x, 's) AdversarialTrainerCertified \<Rightarrow> ('w, 'x, 'z) certifier \<Rightarrow> 'w optimizer
     \<Rightarrow> 'z certification_loss \<Rightarrow> int option \<Rightarrow> ('x \<times> nat) list \<Rightarrow> nat list
     \<Rightarrow> ('w, 'x) fit_state \<Rightarrow> ('w, 'x) outcome" where
  "batch_loop T C opt certification_loss batch_size' data [] s = (None, s)"
| "batch_loop T C opt certification_loss batch_size' data (m # ms) s =
     (case batch_body T C opt certification_loss batch_size' data m s of
        (Some e, s') \<Rightarrow> (Some e, s')
      | (None, s') \<Rightarrow> batch_loop T C opt certification_loss batch_size' data ms s')"

text \<open>
  The first statements of an epoch: with \<^verbatim>\<open>use_certification_schedule\<close> the bound is
  \<^verbatim>\<open>certification_schedule_function.step()\<close>, and that variable is assigned only
  where no schedule was supplied.
\<close>

definition advance_bound ::
  "(rat \<Rightarrow> ieee) \<Rightarrow> ('x, 's) AdversarialTrainerCertified \<Rightarrow> ('w, 'x) fit_state \<Rightarrow> ('w, 'x) outcome" where
  "advance_bound fl T s =
     (if use_certification_schedule T
      then (case certification_schedule_function s of
              None \<Rightarrow> (Some UnboundLocalError, s)
            | Some f \<Rightarrow>
                (let (b, f') = step fl f
                 in (None, emit CertificationScheduleStep
                       (s\<lparr>certification_schedule_function := Some f', fit_state.bound := Some b\<rparr>))))
      else (None, s))"

text \<open>The body of \<^verbatim>\<open>for _ in tqdm(range(epochs))\<close>.\<close>

definition epoch_body ::
  "(rat \<Rightarrow> ieee) \<Rightarrow> ('x, 's) AdversarialTrainerCertified \<Rightarrow> ('w, 'x, 'z) certifier \<Rightarrow> 'w optimizer
     \<Rightarrow> 'z certification_loss \<Rightarrow> int option \<Rightarrow> bool \<Rightarrow> ('x \<times> nat) list \<Rightarrow> nat
     \<Rightarrow> ('w, 'x) fit_state \<Rightarrow> ('w, 'x) outcome" where
  "epoch_body fl T C opt certification_loss batch_size' scheduler data num_batch s =
     (case advance_bound fl T s of
        (Some e, s1) \<Rightarrow> (Some e, s1)
      | (None, s1) \<Rightarrow>
          (let (ind', w) = random_shuffle C (world s1) (ind s1);
               s2 = emit RandomShuffle (s1\<lparr>world := w, ind := ind'\<rparr>)
           in case batch_loop T C opt certification_loss batch_size' data [0..<num_batch] s2 of
                (Some e, s3) \<Rightarrow> (Some e, s3)
              | (None, s3) \<Rightarrow> (None, if scheduler then emit SchedulerStep s3 else s3)))"

fun epoch_loop ::
  "(rat \<Rightarrow> ieee) \<Rightarrow> ('x, 's) AdversarialTrainerCertified \<Rightarrow> ('w, 'x, 'z) certifier \<Rightarrow> 'w optimizer
     \<Rightarrow> 'z certification_loss \<Rightarrow> int option \<Rightarrow> bool \<Rightarrow> ('x \<times> nat) list \<Rightarrow> nat
     \<Rightarrow> nat \<Rightarrow> ('w, 'x) fit_state \<Rightarrow> ('w, 'x) outcome" where
  "epoch_loop fl T C opt certification_loss batch_size' scheduler data num_batch 0 s = (None, s)"
| "epoch_loop fl T C opt certification_loss batch_size' scheduler data num_batch (Suc n) s =
     (case epoch_body fl T C opt certification_loss batch_size' scheduler data num_batch s of
        (Some e, s') \<Rightarrow> (Some e, s')
      | (None, s') \<Rightarrow>
          epoch_loop fl T C opt certification_loss batch_size' scheduler data num_batch n s')"

text \<open>
  The statements of \<^verbatim>\<open>fit\<close> before the loop over the epochs.  The arguments
  \<^verbatim>\<open>x\<close> and \<^verbatim>\<open>y\<close> enter the model after \<^verbatim>\<open>check_and_transform_label_format\<close>,
  \<^verbatim>\<open>apply_preprocessing\<close> and \<^verbatim>\<open>reduce_labels\<close>, as the list \<open>data\<close> of samples with
  their labels.  The variable \<^verbatim>\<open>epochs\<close> is \<^verbatim>\<open>nb_epochs\<close> if that argument is given
  and else \<^verbatim>\<open>self.batch_size\<close>; it stays unbound when both are \<^verbatim>\<open>None\<close>.
\<close>

definition fit_batch_size :: "('x, 's) AdversarialTrainerCertified \<Rightarrow> int option \<Rightarrow> int option" where
  "fit_batch_size T batch_size' = (case batch_size' of None \<Rightarrow> batch_size T | Some b \<Rightarrow> Some b)"

definition fit_epochs :: "('x, 's) AdversarialTrainerCertified \<Rightarrow> int option \<Rightarrow> int option" where
  "fit_epochs T nb_epochs' = (case nb_epochs' of Some n \<Rightarrow> Some n | None \<Rightarrow> batch_size T)"

definition fit_num_batch :: "('x, 's) AdversarialTrainerCertified \<Rightarrow> nat \<Rightarrow> error + nat" where
  "fit_num_batch T len =
     (if pgd_batch_size T = 0 then Inl ZeroDivisionError
      else Inr (nat \<lceil>(of_nat len :: rat) / of_int (pgd_batch_size T)\<rceil>))"

definition fit_init ::
  "('w, 'x, 'z) certifier \<Rightarrow> ('x \<times> nat) list \<Rightarrow> bool \<Rightarrow> 'w \<Rightarrow> ('w, 'x) fit_state" where
  "fit_init C data training_mode w =
     \<lparr>world = train C training_mode w, x_cert = data, ind = [0..<length data],
      certification_schedule_function = None, bound = None,
      certified_loss = 0, samples_certified = 0, trace = [TrainMode training_mode]\<rparr>"

text \<open>
  \<^verbatim>\<open>if self.use_certification_schedule: if self.certification_schedule is None: ...\<close>
  with \<^verbatim>\<open>else: bound = self.bound\<close> belonging to the outer test.
\<close>

definition schedule_setup ::
  "(rat \<Rightarrow> ieee) \<Rightarrow> ('x, 's) AdversarialTrainerCertified \<Rightarrow> int option \<Rightarrow> ('w, 'x) fit_state
     \<Rightarrow> ('w, 'x) outcome" where
  "schedule_setup fl T epochs s =
     (if use_certification_schedule T
      then (case certification_schedule T of
              Some user_schedule \<Rightarrow> (None, s)
            | None \<Rightarrow>
                (case epochs of
                   None \<Rightarrow> (Some UnboundLocalError, s)
                 | Some e \<Rightarrow>
                     (case default_schedule fl (AdversarialTrainerCertified.bound T) e of
                        Inl err \<Rightarrow> (Some err, s)
                      | Inr f \<Rightarrow> (None, s\<lparr>certification_schedule_function := Some f\<rparr>))))
      else (None, s\<lparr>fit_state.bound := Some (AdversarialTrainerCertified.bound T)\<rparr>))"

definition fit ::
  "(rat \<Rightarrow> ieee) \<Rightarrow> ('x, 's) AdversarialTrainerCertified \<Rightarrow> ('w, 'x, 'z) certifier
     \<Rightarrow> ('x \<times> nat) list \<Rightarrow> 'z certification_loss \<Rightarrow> int option \<Rightarrow> int option \<Rightarrow> bool
     \<Rightarrow> bool \<Rightarrow> 'w \<Rightarrow> ('w, 'x) outcome" where
  "fit fl T C data certification_loss batch_size' nb_epochs' training_mode scheduler w =
     (let s0 = fit_init C data training_mode w
      in case optimizer C of
           None \<Rightarrow> (Some ValueError, s0)
         | Some opt \<Rightarrow>
             (case fit_num_batch T (length data) of
                Inl e \<Rightarrow> (Some e, s0)
              | Inr num_batch \<Rightarrow>
                  (case schedule_setup fl T (fit_epochs T nb_epochs') s0 of
                     (Some e, s1) \<Rightarrow> (Some e, s1)
                   | (None, s1) \<Rightarrow>
                       (case fit_epochs T nb_epochs' of
                          None \<Rightarrow> (Some UnboundLocalError, s1)
                        | Some epochs \<Rightarrow>
                            epoch_loop fl T C opt certification_loss (fit_batch_size T batch_size')
                              scheduler data num_batch (nat epochs) s1))))"

section \<open>The adversarial patch attack\<close>

text \<open>
  What \<^verbatim>\<open>AdversarialPatchTensorFlowV2\<close> reads from its classifier.  Batches of images have
  type \<open>'i\<close> and batches of labels type \<open>'l\<close>.  \<open>tape_gradient\<close> stands for the gradient
  tape around \<^verbatim>\<open>self._loss(images, target)\<close>: it returns the loss and its gradient with
  respect to the patch, an array of the shape of the patch.  The random placement of the
  patch inside \<^verbatim>\<open>_loss\<close> is part of this parameter.
\<close>

record ('d, 'i, 'l) estimator =
  input_shape :: "nat \<times> nat \<times> nat"
  clip_values :: "rat \<times> rat"
  postprocessing_defences :: "'d list option"
  predict :: "'i \<Rightarrow> 'l"
  tape_gradient :: "rat list \<Rightarrow> 'i \<Rightarrow> 'l \<Rightarrow> rat \<times> rat list"

text \<open>
  The attack object.  \<open>patch\<close> is the value of the variable \<^verbatim>\<open>self._patch\<close>, flattened.
  The variable has the type \<^verbatim>\<open>tf.float32\<close>; the model holds its finite values, as
  rationals.  The arithmetic of the constructor and of a training iteration is exact; the
  value that \<^verbatim>\<open>reset_patch\<close> assigns is rounded to binary32.
\<close>

record AdversarialPatchTensorFlowV2 =
  image_shape :: "nat \<times> nat \<times> nat"
  patch_shape :: "nat \<times> nat \<times> nat"
  learning_rate :: rat
  patch :: "rat list"
  targeted :: bool

definition ones :: "nat \<times> nat \<times> nat \<Rightarrow> rat list" where
  "ones shape = (case shape of (w, h, c) \<Rightarrow> replicate (w * h * c) 1)"

text \<open>\<^verbatim>\<open>tf.clip_by_value(x, lo, hi)\<close> is \<^verbatim>\<open>minimum(maximum(x, lo), hi)\<close>.\<close>

definition clip_by_value :: "rat \<Rightarrow> rat \<Rightarrow> rat \<Rightarrow> rat" where
  "clip_by_value x lo hi = min (max x lo) hi"

text \<open>
  The \<^verbatim>\<open>constraint\<close> given to \<^verbatim>\<open>tf.Variable\<close> in the constructor.  TensorFlow
  converts the two clip values, Python floats, to the type \<^verbatim>\<open>tf.float32\<close> of the
  variable; clip values beyond the range of binary32 would become infinities, which the
  model does not follow.
\<close>

definition constraint :: "('d, 'i, 'l) estimator \<Rightarrow> rat \<Rightarrow> rat" where
  "constraint E x =
     clip_by_value x (float32 (fst (clip_values E))) (float32 (snd (clip_values E)))"

text \<open>
  The checks of \<^verbatim>\<open>__init__\<close>, in the order of the source, and the initial patch.  The
  default \<^verbatim>\<open>patch_shape=None\<close> cannot be indexed.  Python's \<^verbatim>\<open>a or b\<close> evaluates
  \<^verbatim>\<open>b\<close> only where \<^verbatim>\<open>a\<close> is false, and \<^verbatim>\<open>None != []\<close> is true.
\<close>

definition postprocessing_assertion :: "'d list option \<Rightarrow> bool" where
  "postprocessing_assertion defences =
     (if defences \<noteq> None then True else defences \<noteq> Some [])"

definition init ::
  "('d, 'i, 'l) estimator \<Rightarrow> rat \<Rightarrow> (nat \<times> nat \<times> nat) option
     \<Rightarrow> error + AdversarialPatchTensorFlowV2" where
  "init classifier learning_rate' patch_shape' =
     (if snd (snd (input_shape classifier)) \<notin> set [1, 3] then Inl AssertionError
      else case patch_shape' of
             None \<Rightarrow> Inl TypeError
           | Some shape \<Rightarrow>
               if snd (snd shape) \<notin> set [1, 3] then Inl AssertionError
               else if fst shape \<noteq> fst (snd shape) then Inl AssertionError
               else if \<not> postprocessing_assertion (postprocessing_defences classifier)
               then Inl AssertionError
               else (let mean_value =
                           (snd (clip_values classifier) - fst (clip_values classifier)) / 2
                             + fst (clip_values classifier)
                     in Inr \<lparr>image_shape = input_shape classifier, patch_shape = shape,
                              learning_rate = learning_rate',
                              patch = map (\<lambda>one. one * mean_value) (ones shape),
                              targeted = False\<rparr>))"

text \<open>
  \<^verbatim>\<open>SGD(momentum=0.0).apply_gradients\<close>: the variable becomes
  \<^verbatim>\<open>var - learning_rate * grad\<close>, and an optimizer applies the constraint of the variable
  to the updated value.
\<close>

definition apply_gradients :: "(rat \<Rightarrow> rat) \<Rightarrow> rat \<Rightarrow> rat list \<Rightarrow> rat list \<Rightarrow> rat list" where
  "apply_gradients constr lr gradients var =
     map constr (map2 (\<lambda>v g. v - lr * g) var gradients)"

definition train_step ::
  "('d, 'i, 'l) estimator \<Rightarrow> AdversarialPatchTensorFlowV2 \<Rightarrow> 'i \<Rightarrow> 'l option
     \<Rightarrow> rat \<times> AdversarialPatchTensorFlowV2" where
  "train_step E a images target =
     (let (target', targeted') =
            (case target of None \<Rightarrow> (predict E images, False) | Some t \<Rightarrow> (t, True));
          (loss, gradients) = tape_gradient E (patch a) images target';
          gradients' = (if \<not> targeted' then map uminus gradients else gradients)
      in (loss,
          a\<lparr>patch := apply_gradients (constraint E) (learning_rate a) gradients' (patch a),
            targeted := targeted'\<rparr>))"

text \<open>
  \<^verbatim>\<open>Variable.assign\<close> converts the array it is given, of 64-bit floats, to the type
  \<^verbatim>\<open>tf.float32\<close> of the variable and stores it; only an optimizer applies the
  constraint.  An entry that overflows to an infinity of binary32 leaves the model.
\<close>

fun assign :: "rat list \<Rightarrow> error + rat list" where
  "assign [] = Inr []"
| "assign (v # vs) =
     (case round_binary32 v of
        Finite r \<Rightarrow> (case assign vs of Inl e \<Rightarrow> Inl e | Inr rs \<Rightarrow> Inr (r # rs))
      | _ \<Rightarrow> Inl NonFinite)"

text \<open>
  \<^verbatim>\<open>reset_patch\<close> with a finite float \<^verbatim>\<open>initial_patch_value\<close>.  The two products
  with \<^verbatim>\<open>np.ones\<close> are products of 64-bit floats with \<open>1.0\<close>, which are exact.
\<close>

definition reset_patch ::
  "AdversarialPatchTensorFlowV2 \<Rightarrow> rat \<Rightarrow> error + AdversarialPatchTensorFlowV2" where
  "reset_patch a initial_patch_value =
     (let initial_value = map (\<lambda>one. one * initial_patch_value) (ones (patch_shape a))
      in case assign (map2 (\<lambda>one v. one * v) (ones (patch_shape a)) initial_value) of
           Inl e \<Rightarrow> Inl e
         | Inr stored \<Rightarrow> Inr (a\<lparr>patch := stored\<rparr>))"

text \<open>A sequence of training iterations and resets applied to an attack object.\<close>

datatype ('i, 'l) patch_call = TrainStep 'i "'l option" | ResetPatch rat

fun call :: "('d, 'i, 'l) estimator \<Rightarrow> AdversarialPatchTensorFlowV2 \<Rightarrow> ('i, 'l) patch_call
    \<Rightarrow> error + AdversarialPatchTensorFlowV2" where
  "call E a (TrainStep images target) = Inr (snd (train_step E a images target))"
| "call E a (ResetPatch v) = reset_patch a v"

fun calls :: "('d, 'i, 'l) estimator \<Rightarrow> AdversarialPatchTensorFlowV2 \<Rightarrow> ('i, 'l) patch_call list
    \<Rightarrow> error + AdversarialPatchTensorFlowV2" where
  "calls E a [] = Inr a"
| "calls E a (c # cs) = (case call E a c of Inl e \<Rightarrow> Inl e | Inr a' \<Rightarrow> calls E a' cs)"

definition within_clip_values :: "('d, 'i, 'l) estimator \<Rightarrow> rat list \<Rightarrow> bool" where
  "within_clip_values E var =
     list_all (\<lambda>v. fst (clip_values E) \<le> v \<and> v \<le> snd (clip_values E)) var"

section \<open>Example inputs\<close>

text \<open>
  Concrete objects on which the definitions are evaluated: a classifier with a postprocessing
  defence and clip values \<open>(0, 1)\<close>, the attack that the constructor builds for it with a
  patch of shape \<open>(1, 1, 1)\<close>, a trainer constructed with \<^verbatim>\<open>nb_epochs=20\<close> and
  \<^verbatim>\<open>batch_size=2\<close>, and a classifier whose network predicts class \<open>0\<close> for every
  sample; its framework state counts the optimizer steps.
\<close>

definition example_estimator :: "(string, unit, unit) estimator" where
  "example_estimator =
     \<lparr>input_shape = (2, 2, 1), clip_values = (0, 1),
      postprocessing_defences = Some [''HighConfidence''],
      predict = (\<lambda>images. ()),
      tape_gradient = (\<lambda>var images target. (1, map (\<lambda>v. 1) var))\<rparr>"

definition example_attack :: AdversarialPatchTensorFlowV2 where
  "example_attack =
     \<lparr>image_shape = (2, 2, 1), patch_shape = (1, 1, 1), learning_rate = 5,
      patch = [1 / 2], targeted = False\<rparr>"

definition example_trainer :: "(nat, DefaultLinearScheduler) AdversarialTrainerCertified" where
  "example_trainer =
     \<lparr>nb_epochs = Some 20, bound = Finite (1 / 10), loss_weighting = 1 / 10, batch_size = Some 2,
      concrete_to_zonotope = None, use_certification_schedule = False,
      certification_schedule = None, pgd_batch_size = 2\<rparr>"

definition example_optimizer :: "nat optimizer" where
  "example_optimizer = \<lparr>zero_grad = (\<lambda>w. w), optimizer_step = Suc\<rparr>"

definition example_certifier :: "(nat, nat, rat) certifier" where
  "example_certifier =
     \<lparr>optimizer = Some example_optimizer, nb_classes = 2,
      train = (\<lambda>mode w. w),
      forward_argmax = (\<lambda>w x. 0),
      forward_abstract = (\<lambda>w x b. of_nat x + (case b of Finite q \<Rightarrow> q | _ \<Rightarrow> 0)),
      max_logit_loss = (\<lambda>z label. z),
      interval_loss_cce = (\<lambda>z label. z),
      certify_via_subtraction = (\<lambda>predicted_class class_to_consider z. predicted_class = 0),
      random_shuffle = (\<lambda>w ind. (ind, w)),
      shuffle = (\<lambda>w xy. (xy, w)),
      generate = (\<lambda>w i_batch o_batch. (i_batch, w)),
      model_zero_grad = (\<lambda>w. w),
      concrete_loss = (\<lambda>w i_batch o_batch. 0),
      backward = (\<lambda>w loss. w)\<rparr>"

definition example_state :: "(nat, nat) fit_state" where
  "example_state =
     \<lparr>world = 0, x_cert = [(1, 0), (2, 0), (3, 0)], ind = [0, 1, 2],
      certification_schedule_function = None, bound = Some (Finite (1 / 10)),
      certified_loss = 0, samples_certified = 0, trace = []\<rparr>"

section \<open>Rounding\<close>

text \<open>
  \<open>round_half_even\<close> picks a neighbouring integer, is monotone and odd, and is at most
  one half away from its argument.
\<close>

lemma round_half_even_cases:
  "round_half_even q = \<lfloor>q\<rfloor> \<or> round_half_even q = \<lfloor>q\<rfloor> + 1"
  by (simp add: round_half_even_def Let_def)

lemma round_half_even_of_int [simp]: "round_half_even (of_int n) = n"
  by (simp add: round_half_even_def Let_def)

lemma round_half_even_mono:
  assumes "x \<le> y"
  shows "round_half_even x \<le> round_half_even y"
proof (cases "\<lfloor>x\<rfloor> < \<lfloor>y\<rfloor>")
  case True
  have "round_half_even x \<le> \<lfloor>x\<rfloor> + 1"
    using round_half_even_cases [of x] by auto
  also have "\<dots> \<le> \<lfloor>y\<rfloor>" using True by simp
  also have "\<dots> \<le> round_half_even y"
    using round_half_even_cases [of y] by auto
  finally show ?thesis .
next
  case False
  with assms have eq: "\<lfloor>x\<rfloor> = \<lfloor>y\<rfloor>"
    using floor_mono [of x y] by simp
  then have "x - of_int \<lfloor>x\<rfloor> \<le> y - of_int \<lfloor>y\<rfloor>"
    using assms by simp
  then show ?thesis
    unfolding round_half_even_def Let_def eq by auto
qed

lemma round_half_even_error: "\<bar>of_int (round_half_even q) - q\<bar> \<le> 1 / 2"
proof -
  have "of_int \<lfloor>q\<rfloor> \<le> q" "q < of_int \<lfloor>q\<rfloor> + 1" by linarith+
  then show ?thesis
    unfolding round_half_even_def Let_def by (auto simp: abs_le_iff)
qed

lemma round_half_even_minus: "round_half_even (- q) = - round_half_even q"
proof (cases "q \<in> \<int>")
  case True
  then obtain n where "q = of_int n" by (auto elim: Ints_cases)
  then have "- q = of_int (- n)" by simp
  then show ?thesis unfolding \<open>q = of_int n\<close> 
    by (simp only: round_half_even_of_int)
next
  case False
  then have fl: "\<lfloor>- q\<rfloor> = - \<lfloor>q\<rfloor> - 1"
    by (metis Ints_of_int ab_group_add_class.ab_diff_conv_add_uminus
        add.inverse_distrib_swap ceiling_altdef floor_minus minus_diff_commute)
  show ?thesis
    unfolding round_half_even_def Let_def fl by simp
qed

text \<open>
  \<open>ilog2\<close> is the binary exponent of a positive rational.
\<close>

lemma bitlen_powi_bounds:
  assumes "0 < a"
  shows "(2::rat) powi (bitlen a - 1) \<le> of_int a" and "of_int a < (2::rat) powi (bitlen a)"
proof -
  from assms have ge: "1 \<le> bitlen a"
    using bitlen_eq_zero_iff [of a] bitlen_nonneg [of a] by linarith
  from bitlen_bounds [OF assms]
  have l: "2 ^ nat (bitlen a - 1) \<le> a" and u: "a < 2 ^ nat (bitlen a)" by simp_all
  have "(of_int (2 ^ nat (bitlen a - 1)) :: rat) \<le> of_int a"
    using l by (simp only: of_int_le_iff)
  then show "(2::rat) powi (bitlen a - 1) \<le> of_int a"
    using ge by (simp add: power_int_def)
  have "(of_int a :: rat) < of_int (2 ^ nat (bitlen a))"
    using u by (simp only: of_int_less_iff)
  then show "of_int a < (2::rat) powi (bitlen a)"
    using ge by (simp add: power_int_def)
qed

lemma ilog2_bounds:
  assumes "0 < q"
  shows "2 powi (ilog2 q) \<le> q" and "q < 2 powi (ilog2 q + 1)"
proof -
  obtain a b where qo: "quotient_of q = (a, b)" by (cases "quotient_of q")
  then have q: "q = of_int a / of_int b" and b: "0 < b"
    by (simp_all add: quotient_of_div quotient_of_denom_pos)
  with assms have a: "0 < a"
    by (simp add: zero_less_divide_iff)
  let ?d = "bitlen a - bitlen b"
  note A = bitlen_powi_bounds [OF a] and B = bitlen_powi_bounds [OF b]
  have bpos: "(0::rat) < of_int b" using b by simp
  have "(2::rat) powi (?d - 1) = 2 powi (bitlen a - 1) / 2 powi (bitlen b)"
    by (simp add: power_int_diff)
  also have "\<dots> \<le> of_int a / 2 powi (bitlen b)"
    using A(1) by (simp add: divide_right_mono)
  also have "\<dots> < of_int a / of_int b"
    using B(2) a bpos by (intro divide_strict_left_mono) simp_all
  finally have lo: "(2::rat) powi (?d - 1) < q" by (simp add: q)
  have "q = of_int a / of_int b" by (rule q)
  also have "\<dots> < 2 powi (bitlen a) / of_int b"
    using A(2) bpos by (simp add: divide_strict_right_mono)
  also have "\<dots> \<le> 2 powi (bitlen a) / 2 powi (bitlen b - 1)"
    using B(1) by (intro frac_le) simp_all
  also have "\<dots> = 2 powi (?d + 1)"
    by (simp add: power_int_diff power_int_add)
  finally have hi: "q < 2 powi (?d + 1)" .
  have il: "ilog2 q = (if 2 powi ?d \<le> q then ?d else ?d - 1)"
    by (simp add: ilog2_def qo Let_def)
  show "2 powi (ilog2 q) \<le> q"
    using lo by (simp add: il)
  show "q < 2 powi (ilog2 q + 1)"
    using hi by (simp add: il not_le)
qed

lemma powi2_less_cancel:
  assumes "(2::rat) powi m < 2 powi n"
  shows "m < n"
proof (rule ccontr)
  assume "\<not> m < n"
  then have "(2::rat) powi n \<le> 2 powi m"
    by (intro power_int_increasing) simp_all
  with assms show False by simp
qed

lemma ilog2_mono:
  assumes "0 < x" "x \<le> y"
  shows "ilog2 x \<le> ilog2 y"
proof -
  have "(2::rat) powi (ilog2 x) \<le> x" using assms(1) by (rule ilog2_bounds)
  also have "x \<le> y" by fact
  also have "y < 2 powi (ilog2 y + 1)" using assms by (intro ilog2_bounds) simp
  finally have "(2::rat) powi (ilog2 x) < 2 powi (ilog2 y + 1)" .
  then have "ilog2 x < ilog2 y + 1" by (rule powi2_less_cancel)
  then show ?thesis by simp
qed

lemma ilog2_ge:
  assumes "2 powi e \<le> q"
  shows "e \<le> ilog2 q"
proof -
  have q: "0 < q" using assms zero_less_power_int [of "2::rat" e] by linarith
  have "(2::rat) powi e \<le> q" by fact
  also have "q < 2 powi (ilog2 q + 1)" using q by (rule ilog2_bounds)
  finally have "e < ilog2 q + 1" by (rule powi2_less_cancel)
  then show ?thesis by simp
qed

text \<open>
  The rounding to 53 bits stays within the binade of its argument, so it is monotone across
  binades; in the normal range its relative error is at most \<open>2 powi (- 53)\<close>.
\<close>

lemma float64_unfold:
  "float64 q = (if q = 0 then 0
     else round_to_quantum (2 powi (max (ilog2 \<bar>q\<bar>) (- 1022) - 52)) q)"
  by (simp add: float64_def round_nearest_even_def)

lemma float64_pos:
  "0 < q \<Longrightarrow> float64 q = round_to_quantum (2 powi (max (ilog2 q) (- 1022) - 52)) q"
  by (simp add: float64_unfold)

lemma round_to_quantum_mono:
  assumes "0 < u" "x \<le> y"
  shows "round_to_quantum u x \<le> round_to_quantum u y"
proof -
  have "x / u \<le> y / u" using assms by (simp add: divide_right_mono)
  then have "round_half_even (x / u) \<le> round_half_even (y / u)"
    by (rule round_half_even_mono)
  then have "(of_int (round_half_even (x / u)) :: rat) \<le> of_int (round_half_even (y / u))"
    by simp
  then show ?thesis
    unfolding round_to_quantum_def using assms(1) by (simp add: mult_right_mono)
qed

lemma round_to_quantum_multiple:
  "u \<noteq> 0 \<Longrightarrow> round_to_quantum u (of_int n * u) = of_int n * u"
  by (simp add: round_to_quantum_def)

lemma round_to_quantum_error:
  assumes "0 < u"
  shows "\<bar>round_to_quantum u q - q\<bar> \<le> u / 2"
proof -
  have "round_to_quantum u q - q = (of_int (round_half_even (q / u)) - q / u) * u"
    using assms by (simp add: round_to_quantum_def left_diff_distrib)
  then have "\<bar>round_to_quantum u q - q\<bar> = \<bar>of_int (round_half_even (q / u)) - q / u\<bar> * u"
    using assms by (simp add: abs_mult)
  also have "\<dots> \<le> (1 / 2) * u"
    using assms round_half_even_error [of "q / u"] by (intro mult_right_mono) simp_all
  finally show ?thesis by simp
qed

lemma float64_upper:
  assumes "0 < q"
  shows "float64 q \<le> 2 powi (max (ilog2 q) (- 1022) + 1)"
proof -
  let ?e = "max (ilog2 q) (- 1022)"
  let ?u = "(2::rat) powi (?e - 52)"
  have u: "0 < ?u" by simp
  have "q < 2 powi (ilog2 q + 1)" using assms by (rule ilog2_bounds)
  also have "\<dots> \<le> 2 powi (?e + 1)" by (intro power_int_increasing) simp_all
  finally have "q \<le> 2 powi (?e + 1)" by simp
  then have "round_to_quantum ?u q \<le> round_to_quantum ?u (2 powi (?e + 1))"
    using u by (intro round_to_quantum_mono)
  also have "(2::rat) powi (?e + 1) = of_int (2 ^ 53) * ?u"
    by (simp add: power_int_diff power_int_add)
  also have "round_to_quantum ?u (of_int (2 ^ 53) * ?u) = of_int (2 ^ 53) * ?u"
    by (intro round_to_quantum_multiple) simp
  also have "of_int (2 ^ 53) * ?u = 2 powi (?e + 1)"
    by (simp add: power_int_diff power_int_add)
  finally show ?thesis using assms by (simp only: float64_pos)
qed

lemma float64_lower:
  assumes "0 < q" "- 1022 \<le> ilog2 q"
  shows "2 powi (ilog2 q) \<le> float64 q"
proof -
  let ?e = "ilog2 q"
  let ?u = "(2::rat) powi (?e - 52)"
  define n :: int where "n = 2 ^ 52"
  have e: "max ?e (- 1022) = ?e" using assms(2) by simp
  have u: "0 < ?u" by simp
  have eq: "(2::rat) powi ?e = of_int n * ?u"
    by (simp add: n_def power_int_diff)
  have "of_int n * ?u = round_to_quantum ?u (of_int n * ?u)"
    using u by (simp only: round_to_quantum_multiple [OF less_imp_neq [OF u, symmetric]])
  also have "\<dots> \<le> round_to_quantum ?u q"
    using u ilog2_bounds(1) [OF assms(1)] by (intro round_to_quantum_mono) (simp_all only: eq)
  finally show ?thesis using assms(1) by (simp only: float64_pos e eq)
qed

lemma float64_nonneg:
  assumes "0 < q"
  shows "0 \<le> float64 q"
proof -
  let ?u = "(2::rat) powi (max (ilog2 q) (- 1022) - 52)"
  have u: "0 < ?u" by simp
  have "0 / ?u \<le> q / ?u" using assms by (intro divide_right_mono) simp_all
  then have "round_half_even (0 / ?u) \<le> round_half_even (q / ?u)"
    by (rule round_half_even_mono)
  moreover have "round_half_even (0 / ?u) = 0"
    using round_half_even_of_int [of 0] by simp
  ultimately have "(0::rat) \<le> of_int (round_half_even (q / ?u))" by simp
  then have "0 \<le> round_to_quantum ?u q"
    unfolding round_to_quantum_def using u by (intro mult_nonneg_nonneg) simp_all
  then show ?thesis using assms by (simp only: float64_pos)
qed

lemma float64_minus: "float64 (- q) = - float64 q"
  by (simp add: float64_unfold round_to_quantum_def round_half_even_minus)

lemma float64_mono_pos:
  assumes "0 < x" "x \<le> y"
  shows "float64 x \<le> float64 y"
proof -
  let ?ex = "max (ilog2 x) (- 1022)" and ?ey = "max (ilog2 y) (- 1022)"
  have y: "0 < y" using assms by simp
  have le: "?ex \<le> ?ey" using ilog2_mono [OF assms] by simp
  show ?thesis
  proof (cases "?ex = ?ey")
    case True
    then show ?thesis
      using assms y by (simp only: float64_pos) (intro round_to_quantum_mono, simp_all)
  next
    case False
    from False le have lt: "?ex < ?ey" by (rule order.not_eq_order_implies_strict)
    then have ey: "?ey = ilog2 y" and n: "- 1022 \<le> ilog2 y" by linarith+
    have "float64 x \<le> 2 powi (?ex + 1)"
      using assms(1) by (rule float64_upper)
    also have "\<dots> \<le> 2 powi (ilog2 y)"
    proof (intro power_int_increasing)
      show "?ex + 1 \<le> ilog2 y" using lt ey by linarith
    qed simp
    also have "\<dots> \<le> float64 y"
      using y n by (rule float64_lower)
    finally show ?thesis .
  qed
qed

lemma float64_mono:
  assumes "x \<le> y"
  shows "float64 x \<le> float64 y"
proof -
  consider "0 < x" | "x \<le> 0" "0 \<le> y" | "y < 0" by linarith
  then show ?thesis
  proof cases
    case 1
    then show ?thesis using assms by (rule float64_mono_pos)
  next
    case 2
    have "float64 x \<le> 0"
    proof (cases "x = 0")
      case True then show ?thesis by (simp add: float64_unfold)
    next
      case False
      with 2 have "0 < - x" by simp
      then have "0 \<le> float64 (- x)" by (rule float64_nonneg)
      then show ?thesis by (simp add: float64_minus)
    qed
    moreover have "0 \<le> float64 y"
    proof (cases "y = 0")
      case True then show ?thesis by (simp add: float64_unfold)
    next
      case False
      with 2 have "0 < y" by simp
      then show ?thesis by (rule float64_nonneg)
    qed
    ultimately show ?thesis by simp
  next
    case 3
    then have "0 < - y" "- y \<le> - x" using assms by simp_all
    then have "float64 (- y) \<le> float64 (- x)"
      by (rule float64_mono_pos)
    then show ?thesis by (simp add: float64_minus)
  qed
qed

lemma float64_rel_error:
  assumes "0 < q" "- 1022 \<le> ilog2 q"
  shows "\<bar>float64 q - q\<bar> \<le> q / 2 ^ 53"
proof -
  let ?e = "ilog2 q"
  let ?u = "(2::rat) powi (?e - 52)"
  have e: "max ?e (- 1022) = ?e" using assms(2) by simp
  have "\<bar>float64 q - q\<bar> \<le> ?u / 2"
    using assms(1) round_to_quantum_error [of ?u q] by (simp only: float64_pos e) simp
  also have "?u / 2 = 2 powi ?e / 2 ^ 53"
    by (simp add: power_int_diff)
  also have "\<dots> \<le> q / 2 ^ 53"
    using ilog2_bounds(1) [OF assms(1)] by (intro divide_right_mono) simp_all
  finally show ?thesis .
qed

lemma float64_rel_bounds:
  assumes "2 powi (- 1022) \<le> q"
  shows "(1 - 1 / 2 ^ 53) * q \<le> float64 q" and "float64 q \<le> (1 + 1 / 2 ^ 53) * q"
    and "2 powi (- 1022) \<le> float64 q"
proof -
  have q: "0 < q" using assms zero_less_power_int [of "2::rat" "- 1022"] by linarith
  have n: "- 1022 \<le> ilog2 q" using assms by (rule ilog2_ge)
  define u :: rat where "u = 1 / 2 ^ 53"
  have "\<bar>float64 q - q\<bar> \<le> u * q"
    using float64_rel_error [OF q n] by (simp add: u_def)
  then have "(1 - u) * q \<le> float64 q" and "float64 q \<le> (1 + u) * q"
    by (simp_all add: abs_le_iff algebra_simps)
  then show "(1 - 1 / 2 ^ 53) * q \<le> float64 q"
    and "float64 q \<le> (1 + 1 / 2 ^ 53) * q"
    by (simp_all only: u_def)
  have "(2::rat) powi (- 1022) \<le> 2 powi (ilog2 q)"
    using n by (intro power_int_increasing) simp_all
  also have "\<dots> \<le> float64 q" using q n by (rule float64_lower)
  finally show "2 powi (- 1022) \<le> float64 q" .
qed

text \<open>
  The test for overflow compares the magnitude of the rounded result with
  \<open>2 powi (emax + 1)\<close>.
\<close>

lemma overflow_cases:
  "overflow emax r =
     (if 2 powi (emax + 1) \<le> r then PInf
      else if r \<le> - (2 powi (emax + 1)) then MInf
      else Finite r)"
proof -
  define P :: rat where "P = 2 powi (emax + 1)"
  have P: "0 < P" by (simp add: P_def)
  have iff: "ilog2 \<bar>r\<bar> \<le> emax \<longleftrightarrow> \<bar>r\<bar> < P" if a: "0 < \<bar>r\<bar>"
  proof
    assume "ilog2 \<bar>r\<bar> \<le> emax"
    have "\<bar>r\<bar> < 2 powi (ilog2 \<bar>r\<bar> + 1)" using a by (rule ilog2_bounds)
    also have "\<dots> \<le> 2 powi (emax + 1)"
      using \<open>ilog2 \<bar>r\<bar> \<le> emax\<close> by (intro power_int_increasing) simp_all
    finally show "\<bar>r\<bar> < P" by (simp only: P_def)
  next
    assume lt: "\<bar>r\<bar> < P"
    have "(2::rat) powi (ilog2 \<bar>r\<bar>) \<le> \<bar>r\<bar>" using a by (rule ilog2_bounds)
    also have "\<bar>r\<bar> < 2 powi (emax + 1)" using lt by (simp only: P_def)
    finally have "ilog2 \<bar>r\<bar> < emax + 1" by (rule powi2_less_cancel)
    then show "ilog2 \<bar>r\<bar> \<le> emax" by simp
  qed
  have "overflow emax r = (if P \<le> r then PInf else if r \<le> - P then MInf else Finite r)"
  proof (cases "r = 0")
    case True
    then show ?thesis using P by (simp add: overflow_def)
  next
    case False
    then have a: "0 < \<bar>r\<bar>" by simp
    consider "P \<le> r" | "r \<le> - P" | "\<bar>r\<bar> < P" by linarith
    then show ?thesis
    proof cases
      case 1
      then have "\<not> \<bar>r\<bar> < P" and "0 < r" using P by linarith+
      then show ?thesis using 1 iff [OF a] False by (simp add: overflow_def)
    next
      case 2
      then have "\<not> \<bar>r\<bar> < P" and "\<not> 0 < r" and "\<not> P \<le> r" using P by linarith+
      then show ?thesis using 2 iff [OF a] False by (simp add: overflow_def)
    next
      case 3
      then have "\<not> P \<le> r" and "\<not> r \<le> - P" by linarith+
      then show ?thesis using 3 iff [OF a] by (simp add: overflow_def)
    qed
  qed
  then show ?thesis by (simp only: P_def)
qed

lemma overflow_finite: "\<bar>r\<bar> < 2 powi (emax + 1) \<Longrightarrow> overflow emax r = Finite r"
  by (auto simp add: overflow_cases abs_less_iff not_le)

lemma overflow_FiniteD:
  assumes "overflow emax r = Finite y"
  shows "y = r" and "\<bar>r\<bar> < 2 powi (emax + 1)"
  using assms by (simp_all add: overflow_cases abs_less_iff not_le split: if_splits)

lemma round_binary64_finite:
  "\<bar>float64 q\<bar> < 2 ^ 1024 \<Longrightarrow> round_binary64 q = Finite (float64 q)"
  unfolding round_binary64_def by (rule overflow_finite) simp

lemma round_binary64_FiniteD:
  assumes "round_binary64 q = Finite y"
  shows "y = float64 q" and "\<bar>float64 q\<bar> < 2 ^ 1024"
  using overflow_FiniteD [OF assms [unfolded round_binary64_def]] by simp_all

lemma is_binary64_FiniteD:
  assumes "is_binary64 (Finite b)"
  shows "float64 b = b" and "\<bar>b\<bar> < 2 ^ 1024"
proof -
  from assms have "round_binary64 b = Finite b" by (simp add: is_binary64_def)
  from round_binary64_FiniteD [OF this] show "float64 b = b" and "\<bar>b\<bar> < 2 ^ 1024" by simp_all
qed

lemma round_binary32_FiniteD:
  assumes "round_binary32 q = Finite y"
  shows "y = float32 q"
  using overflow_FiniteD [OF assms [unfolded round_binary32_def]] by simp

text \<open>
  Every integer from \<open>0\<close> to \<open>2 ^ 53\<close> is a binary64 number.
\<close>

lemma float64_of_nat:
  assumes "n \<le> 2 ^ 53"
  shows "float64 (of_nat n) = of_nat n"
proof (cases "n = 0")
  case True
  then show ?thesis by (simp add: float64_unfold)
next
  case False
  define q :: rat where "q = of_nat n"
  define e where "e = ilog2 q"
  have q1: "1 \<le> q" using False by (simp add: q_def)
  then have q0: "0 < q" by simp
  have "(2::rat) powi 0 \<le> q" using q1 by simp
  then have e0: "0 \<le> e" unfolding e_def by (rule ilog2_ge)
  have qle: "q \<le> 2 ^ 53"
  proof -
    have "(of_nat n :: rat) \<le> of_nat (2 ^ 53)" using assms by (simp only: of_nat_le_iff)
    then show ?thesis by (simp add: q_def)
  qed
  have "(2::rat) powi e \<le> q" unfolding e_def using q0 by (rule ilog2_bounds)
  also have "q < 2 powi 54" using qle by simp
  finally have "e < 54" by (rule powi2_less_cancel)
  then have e53: "e \<le> 53" by simp
  define U :: rat where "U = 2 powi (e - 52)"
  have U: "U \<noteq> 0" by (simp add: U_def)
  have fl: "float64 q = round_to_quantum U q"
    using q0 e0 by (simp add: float64_unfold U_def e_def max_def)
  have "\<exists>k. q = of_int k * U"
  proof (cases "e \<le> 52")
    case True
    then have "U = 1 / 2 ^ nat (52 - e)"
      by (simp add: U_def power_int_def power_inverse nat_diff_distrib field_simps)
    then have "q = of_int (int n * 2 ^ nat (52 - e)) * U" by (simp add: q_def)
    then show ?thesis by blast
  next
    case False
    with e53 have e: "e = 53" by simp
    have "(2::rat) powi e \<le> q" unfolding e_def using q0 by (rule ilog2_bounds)
    then have "q = 2 ^ 53" using qle by (simp add: e)
    moreover have "U = 2" by (simp add: U_def e)
    ultimately have "q = of_int (2 ^ 52) * U" by simp
    then show ?thesis by blast
  qed
  then obtain k where k: "q = of_int k * U" ..
  have "round_to_quantum U q = q"
    unfolding k by (rule round_to_quantum_multiple [OF U])
  with fl have "float64 q = q" by simp
  then show ?thesis by (simp only: q_def)
qed

lemma round_binary64_of_nat:
  assumes "n \<le> 2 ^ 53"
  shows "round_binary64 (of_nat n) = Finite (of_nat n)"
proof -
  have "(of_nat n :: rat) \<le> of_nat (2 ^ 53)" using assms by (simp only: of_nat_le_iff)
  then have "(of_nat n :: rat) \<le> 2 ^ 53" by simp
  also have "(2::rat) ^ 53 < 2 ^ 1024" by (intro power_strict_increasing) simp_all
  finally have "\<bar>float64 (of_nat n)\<bar> < 2 ^ 1024"
    by (simp add: float64_of_nat [OF assms])
  from round_binary64_finite [OF this] show ?thesis
    by (simp add: float64_of_nat [OF assms])
qed

section \<open>The linear schedule\<close>

lemma steps_step_per_epoch: "step_per_epoch (steps fl n s) = step_per_epoch s"
  by (induction n arbitrary: s) (simp_all add: step_def Let_def)

lemma steps_Suc_right: "steps fl (Suc n) s = snd (step fl (steps fl n s))"
  by (induction n arbitrary: s) simp_all

lemma steps_Suc_bound:
  "DefaultLinearScheduler.bound (steps fl (Suc n) s)
   = float_add fl (DefaultLinearScheduler.bound (steps fl n s)) (step_per_epoch s)"
  unfolding steps_Suc_right by (simp add: step_def Let_def steps_step_per_epoch)

lemma steps_exact_bound:
  assumes "DefaultLinearScheduler.bound s = Finite b" and "step_per_epoch s = Finite c"
  shows "DefaultLinearScheduler.bound (steps Finite n s) = Finite (b + of_nat n * c)"
proof (induction n)
  case 0
  show ?case by (simp add: assms)
next
  case (Suc n)
  show ?case
    unfolding steps_Suc_bound by (simp add: Suc.IH assms algebra_simps)
qed

text \<open>
  In exact arithmetic the schedule built by \<^verbatim>\<open>fit\<close> grows by \<open>bound / epochs\<close> with
  every step and reaches \<open>bound\<close> after \<open>epochs\<close> steps.
\<close>

lemma default_schedule_exact:
  assumes "0 < epochs"
  shows "\<exists>s0. default_schedule Finite (Finite bnd) (int epochs) = Inr s0
          \<and> step_per_epoch s0 = Finite (bnd / of_nat epochs)
          \<and> DefaultLinearScheduler.bound (steps Finite epochs s0) = Finite bnd"
proof -
  let ?s0 = "DefaultLinearScheduler_init (Finite (bnd / of_nat epochs)) (Finite 0)"
  have a: "default_schedule Finite (Finite bnd) (int epochs) = Inr ?s0"
    using assms by (simp add: default_schedule_def float_truediv_def)
  have sp: "step_per_epoch ?s0 = Finite (bnd / of_nat epochs)"
    and b0: "DefaultLinearScheduler.bound ?s0 = Finite 0"
    by (simp_all add: DefaultLinearScheduler_init_def)
  have c: "DefaultLinearScheduler.bound (steps Finite epochs ?s0) = Finite bnd"
    unfolding steps_exact_bound [OF b0 sp] using assms by simp
  from a sp c show ?thesis by blast
qed

text \<open>
  With a rounding of relative error at most \<open>u\<close> on the interval from \<open>m\<close> to \<open>M\<close> the
  accumulated bound stays finite and within the factors \<open>(1 - u) ^ (k + 1)\<close> and
  \<open>(1 + u) ^ (k + 1)\<close> of the exact value, as long as the sums stay below \<open>M\<close>.
\<close>

lemma steps_rel_error:
  fixes u m c c' M :: rat
  assumes u: "0 \<le> u" "u \<le> 1" and m: "0 < m"
    and rel: "\<And>q. m \<le> q \<Longrightarrow> q \<le> M
               \<Longrightarrow> \<exists>y. fl q = Finite y \<and> (1 - u) * q \<le> y \<and> y \<le> (1 + u) * q"
    and c: "m \<le> c" and c': "m \<le> c'" "(1 - u) * c \<le> c'" "c' \<le> (1 + u) * c"
    and s0: "step_per_epoch s0 = Finite c'" "DefaultLinearScheduler.bound s0 = Finite 0"
    and M: "(1 + u) ^ N * (of_nat N * c) \<le> M"
    and k: "k \<le> N"
  shows "\<exists>y. DefaultLinearScheduler.bound (steps fl k s0) = Finite y
          \<and> (1 - u) ^ Suc k * (of_nat k * c) \<le> y
          \<and> y \<le> (1 + u) ^ Suc k * (of_nat k * c)"
  using k
proof (induction k)
  case 0
  show ?case by (simp add: s0)
next
  case (Suc k)
  then have kN: "k \<le> N" and SkN: "Suc k \<le> N" by simp_all
  from Suc.IH [OF kN] obtain B where B: "DefaultLinearScheduler.bound (steps fl k s0) = Finite B"
    and IH: "(1 - u) ^ Suc k * (of_nat k * c) \<le> B" "B \<le> (1 + u) ^ Suc k * (of_nat k * c)"
    by blast
  let ?x = "B + c'"
  have c0: "0 \<le> c" using m c by simp
  have kc: "0 \<le> of_nat k * c" using c0 by simp
  have S: "DefaultLinearScheduler.bound (steps fl (Suc k) s0) = fl ?x"
    unfolding steps_Suc_bound by (simp add: B s0)
  have "0 \<le> (1 - u) ^ Suc k * (of_nat k * c)"
    using u c0 by (intro mult_nonneg_nonneg zero_le_power) simp_all
  with IH have B0: "0 \<le> B" by linarith
  with c' have mx: "m \<le> ?x" by linarith
  have up1: "(1 + u) * c \<le> (1 + u) ^ Suc k * c"
    using u c0 by (intro mult_right_mono self_le_power) simp_all
  have "?x \<le> (1 + u) ^ Suc k * (of_nat k * c) + (1 + u) * c"
    using IH c' by linarith
  also have "\<dots> \<le> (1 + u) ^ Suc k * (of_nat k * c) + (1 + u) ^ Suc k * c"
    using up1 by linarith
  also have "\<dots> = (1 + u) ^ Suc k * (of_nat (Suc k) * c)"
    by (simp add: algebra_simps)
  finally have xu: "?x \<le> (1 + u) ^ Suc k * (of_nat (Suc k) * c)" .
  have p1: "(1 + u) ^ Suc k \<le> (1 + u) ^ N" using u SkN by (intro power_increasing) simp_all
  have p2: "of_nat (Suc k) * c \<le> of_nat N * c" using SkN c0 by (intro mult_right_mono) simp_all
  have p3: "0 \<le> (1 + u) ^ N" using u by simp
  have p4: "0 \<le> of_nat (Suc k) * c" using c0 by (intro mult_nonneg_nonneg) simp_all
  have "(1 + u) ^ Suc k * (of_nat (Suc k) * c) \<le> (1 + u) ^ N * (of_nat N * c)"
    using p1 p2 p3 p4 by (rule mult_mono)
  with xu M have xM: "?x \<le> M" by linarith
  from rel [OF mx xM] obtain y where y: "fl ?x = Finite y"
    and R: "(1 - u) * ?x \<le> y" "y \<le> (1 + u) * ?x" by blast
  have "(1 + u) * ?x \<le> (1 + u) * ((1 + u) ^ Suc k * (of_nat (Suc k) * c))"
    using u xu by (intro mult_left_mono) simp_all
  with R have upper: "y \<le> (1 + u) ^ Suc (Suc k) * (of_nat (Suc k) * c)"
    by (simp add: mult.assoc)
  have lo1: "(1 - u) ^ Suc k * c \<le> (1 - u) * c"
  proof -
    have "(1 - u) ^ k \<le> 1" using u by (intro power_le_one) simp_all
    then have "(1 - u) * (1 - u) ^ k \<le> (1 - u) * 1"
      using u by (intro mult_left_mono) simp_all
    then show ?thesis using c0 by (intro mult_right_mono) simp_all
  qed
  have "(1 - u) ^ Suc k * (of_nat (Suc k) * c)
        = (1 - u) ^ Suc k * (of_nat k * c) + (1 - u) ^ Suc k * c"
    by (simp add: algebra_simps)
  also have "\<dots> \<le> (1 - u) ^ Suc k * (of_nat k * c) + (1 - u) * c"
    using lo1 by linarith
  also have "\<dots> \<le> ?x"
    using IH c' by linarith
  finally have "(1 - u) * ((1 - u) ^ Suc k * (of_nat (Suc k) * c)) \<le> (1 - u) * ?x"
    using u by (intro mult_left_mono) simp_all
  with R have lower: "(1 - u) ^ Suc (Suc k) * (of_nat (Suc k) * c) \<le> y"
    by (simp add: mult.assoc)
  from y lower upper show ?case unfolding S by blast
qed

text \<open>
  Claim C4, as amended.  For the schedule that \<^verbatim>\<open>fit\<close> builds, with binary64 arithmetic,
  a finite bound, a positive number of epochs that is a binary64 number, \<open>bound / epochs\<close>
  in the normal range, and \<open>(1 + 2 powi (- 53)) ^ (epochs + 1) * bound\<close> below \<open>2 ^ 1024\<close>,
  so that no sum overflows: the schedule is built, every call of \<^verbatim>\<open>step\<close> replaces the
  stored bound by the float sum of the stored bound and the rounded quotient
  \<open>bound / epochs\<close>, and after \<open>epochs\<close> calls the stored bound is finite and lies between
  \<open>(1 - 2 powi (- 53)) ^ (epochs + 1) * bound\<close> and \<open>(1 + 2 powi (- 53)) ^ (epochs + 1) * bound\<close>.
  It reaches \<open>bound\<close> up to this rounding error, not exactly.
\<close>

theorem default_schedule_binary64:
  assumes "0 < epochs"
    and "round_binary64 (of_nat epochs) = Finite (of_nat epochs)"
    and "2 powi (- 1022) \<le> bnd / of_nat epochs"
    and "(1 + 1 / 2 ^ 53) ^ Suc epochs * bnd < 2 ^ 1024"
  shows "\<exists>s0. default_schedule round_binary64 (Finite bnd) (int epochs) = Inr s0
          \<and> step_per_epoch s0 = round_binary64 (bnd / of_nat epochs)
          \<and> (\<forall>n. DefaultLinearScheduler.bound (steps round_binary64 (Suc n) s0)
                   = float_add round_binary64
                       (DefaultLinearScheduler.bound (steps round_binary64 n s0))
                       (round_binary64 (bnd / of_nat epochs)))
          \<and> (\<exists>y. DefaultLinearScheduler.bound (steps round_binary64 epochs s0) = Finite y
                  \<and> (1 - 1 / 2 ^ 53) ^ Suc epochs * bnd \<le> y
                  \<and> y \<le> (1 + 1 / 2 ^ 53) ^ Suc epochs * bnd)"
proof -
  define u :: rat where "u = 1 / 2 ^ 53"
  define m :: rat where "m = 2 powi (- 1022)"
  define c where "c = bnd / of_nat epochs"
  define M where "M = (1 + u) ^ epochs * (of_nat epochs * c)"
  have u: "0 \<le> u" "u \<le> 1" by (simp_all add: u_def)
  have m: "0 < m" by (simp add: m_def)
  have mc: "m \<le> c" using assms(3) by (simp only: m_def c_def)
  have c0: "0 < c" using m mc by linarith
  have Nc: "of_nat epochs * c = bnd" using assms(1) by (simp add: c_def)
  have big: "(1 + u) * M < 2 ^ 1024"
    using assms(4) by (simp add: M_def Nc u_def mult.assoc)
  have rel: "\<exists>y. round_binary64 q = Finite y \<and> (1 - u) * q \<le> y \<and> y \<le> (1 + u) * q"
    if q: "m \<le> q" "q \<le> M" for q
  proof -
    have q': "2 powi (- 1022) \<le> q" using q(1) by (simp only: m_def)
    note R = float64_rel_bounds [OF q']
    have lo: "(1 - u) * q \<le> float64 q" and hi: "float64 q \<le> (1 + u) * q"
      using R(1,2) by (simp_all only: u_def)
    have "0 < float64 q" using R(3) m by (simp add: m_def)
    moreover have "(1 + u) * q \<le> (1 + u) * M" using q(2) u by (intro mult_left_mono) simp_all
    ultimately have "\<bar>float64 q\<bar> < 2 ^ 1024" using hi big by linarith
    then have "round_binary64 q = Finite (float64 q)" by (rule round_binary64_finite)
    with lo hi show ?thesis by blast
  qed
  have cM: "c \<le> M"
  proof -
    have "1 * (1 * c) \<le> (1 + u) ^ epochs * (of_nat epochs * c)"
    proof (intro mult_mono)
      show "1 \<le> (1 + u) ^ epochs" using u by (intro one_le_power) simp
      show "(1::rat) \<le> of_nat epochs" using assms(1) by simp
    qed (use c0 u in simp_all)
    then show ?thesis by (simp add: M_def)
  qed
  from rel [OF mc cM] obtain c' where c': "round_binary64 c = Finite c'"
    and c'b: "(1 - u) * c \<le> c'" "c' \<le> (1 + u) * c" by blast
  have c'f: "c' = float64 c" using c' by (rule round_binary64_FiniteD)
  have mc': "m \<le> c'"
    using float64_rel_bounds(3) [of c] assms(3) by (simp only: c'f m_def c_def)
  let ?s0 = "DefaultLinearScheduler_init (Finite c') (Finite 0)"
  have a: "default_schedule round_binary64 (Finite bnd) (int epochs) = Inr ?s0"
    using assms(1,2) c' by (simp add: default_schedule_def float_truediv_def c_def)
  have sp: "step_per_epoch ?s0 = Finite c'"
    and b0: "DefaultLinearScheduler.bound ?s0 = Finite 0"
    by (simp_all add: DefaultLinearScheduler_init_def)
  have b: "DefaultLinearScheduler.bound (steps round_binary64 (Suc n) ?s0)
           = float_add round_binary64
               (DefaultLinearScheduler.bound (steps round_binary64 n ?s0)) (Finite c')" for n
    unfolding steps_Suc_bound by (simp only: sp)
  have "\<exists>y. DefaultLinearScheduler.bound (steps round_binary64 epochs ?s0) = Finite y
          \<and> (1 - u) ^ Suc epochs * (of_nat epochs * c) \<le> y
          \<and> y \<le> (1 + u) ^ Suc epochs * (of_nat epochs * c)"
    using u m rel mc mc' c'b sp b0
  proof (rule steps_rel_error)
    show "(1 + u) ^ epochs * (of_nat epochs * c) \<le> M" by (simp add: M_def)
    show "epochs \<le> epochs" by simp
  qed
  then obtain y where y: "DefaultLinearScheduler.bound (steps round_binary64 epochs ?s0) = Finite y"
    "(1 - u) ^ Suc epochs * bnd \<le> y" "y \<le> (1 + u) ^ Suc epochs * bnd"
    unfolding Nc by blast
  have sp': "step_per_epoch ?s0 = round_binary64 (bnd / of_nat epochs)"
    using c' by (simp only: sp c_def)
  have b': "\<forall>n. DefaultLinearScheduler.bound (steps round_binary64 (Suc n) ?s0)
           = float_add round_binary64
               (DefaultLinearScheduler.bound (steps round_binary64 n ?s0))
               (round_binary64 (bnd / of_nat epochs))"
    using b c' by (simp add: c_def)
  have fin: "\<exists>y. DefaultLinearScheduler.bound (steps round_binary64 epochs ?s0) = Finite y
                  \<and> (1 - 1 / 2 ^ 53) ^ Suc epochs * bnd \<le> y
                  \<and> y \<le> (1 + 1 / 2 ^ 53) ^ Suc epochs * bnd"
    using y by (simp only: u_def) blast
  from a sp' b' fin show ?thesis by blast
qed

text \<open>
  The theorem at the default bound \<open>0.1\<close>, which is the binary64 number
  \<open>3602879701896397 / 2 ^ 55\<close>, and ten epochs.
\<close>

theorem default_schedule_binary64_witness:
  "(0::nat) < 10
   \<and> round_binary64 (of_nat 10) = Finite (of_nat 10)
   \<and> (2::rat) powi (- 1022) \<le> (3602879701896397 / 2 ^ 55) / of_nat 10
   \<and> (1 + 1 / 2 ^ 53) ^ Suc 10 * (3602879701896397 / 2 ^ 55) < (2::rat) ^ 1024
   \<and> (\<exists>s0. default_schedule round_binary64 (Finite (3602879701896397 / 2 ^ 55)) (int 10) = Inr s0
        \<and> (\<exists>y. DefaultLinearScheduler.bound (steps round_binary64 10 s0) = Finite y
              \<and> (1 - 1 / 2 ^ 53) ^ Suc 10 * (3602879701896397 / 2 ^ 55) \<le> y
              \<and> y \<le> (1 + 1 / 2 ^ 53) ^ Suc 10 * (3602879701896397 / 2 ^ 55)))"
proof -
  have h1: "(0::nat) < 10" by simp
  have "round_binary64 10 = Finite 10" by code_simp
  then have h2: "round_binary64 (of_nat 10) = Finite (of_nat 10)" by simp
  have h3: "(2::rat) powi (- 1022) \<le> (3602879701896397 / 2 ^ 55) / of_nat 10"
    by (simp add: power_int_def power_inverse field_simps)
  have h4: "(1 + 1 / 2 ^ 53) ^ Suc 10 * (3602879701896397 / 2 ^ 55) < (2::rat) ^ 1024"
  proof -
    have "(1 + 1 / 2 ^ 53 :: rat) ^ Suc 10 \<le> 2 ^ Suc 10" by (intro power_mono) simp_all
    moreover have "(3602879701896397 / 2 ^ 55 :: rat) \<le> 1" by simp
    ultimately have "(1 + 1 / 2 ^ 53) ^ Suc 10 * (3602879701896397 / 2 ^ 55) \<le> (2::rat) ^ Suc 10 * 1"
      by (intro mult_mono) simp_all
    also have "\<dots> < 2 ^ 1024" by (simp del: power_Suc)
    finally show ?thesis .
  qed
  from default_schedule_binary64 [OF h1 h2 h3 h4] h1 h2 h3 h4 show ?thesis by blast
qed

text \<open>
  Claim C4 as stated fails: with the default bound \<open>0.1\<close> and ten epochs the step is
  the binary64 number nearest to \<open>0.01\<close>, and ten additions give
  \<open>7205759403792793 / 2 ^ 56\<close>, printed \<^verbatim>\<open>0.09999999999999999\<close>, which is not the bound.
\<close>

theorem default_schedule_misses_bound:
  "default_schedule round_binary64 (Finite (3602879701896397 / 2 ^ 55)) 10
     = Inr \<lparr>step_per_epoch = Finite (5764607523034235 / 2 ^ 59), bound = Finite 0\<rparr>
   \<and> DefaultLinearScheduler.bound
        (steps round_binary64 10
           \<lparr>step_per_epoch = Finite (5764607523034235 / 2 ^ 59), bound = Finite 0\<rparr>)
      = Finite (7205759403792793 / 2 ^ 56)
   \<and> (7205759403792793 / 2 ^ 56 :: rat) \<noteq> 3602879701896397 / 2 ^ 55"
proof -
  have a: "round_binary64 (3602879701896397 / 2 ^ 55 / 10) = Finite (5764607523034235 / 2 ^ 59)"
    by code_simp
  have a': "round_binary64 10 = Finite 10" by code_simp
  have b: "DefaultLinearScheduler.bound
        (steps round_binary64 10
           \<lparr>step_per_epoch = Finite (5764607523034235 / 2 ^ 59), bound = Finite 0\<rparr>)
      = Finite (7205759403792793 / 2 ^ 56)"
    by code_simp
  have c: "(7205759403792793 / 2 ^ 56 :: rat) \<noteq> 3602879701896397 / 2 ^ 55" by simp
  from a a' b c show ?thesis
    by (simp add: default_schedule_def float_truediv_def DefaultLinearScheduler_init_def)
qed

text \<open>
  Claim C5, as amended.  For every state of the scheduler whose bound is a float, that is
  a binary64 number, an infinity or NaN, and whose \<^verbatim>\<open>step_per_epoch\<close> is a float that is
  not negative: the bound after a call of \<^verbatim>\<open>step\<close> is at least the bound before it
  exactly if the bound is not NaN and the state is not the bound \<^verbatim>\<open>-inf\<close> with the
  step \<^verbatim>\<open>inf\<close>; the call returns the stored bound.  A sum that overflows becomes
  \<^verbatim>\<open>inf\<close>, which is at least the bound before.
\<close>

theorem step_bound_nondecreasing:
  assumes "is_binary64 (DefaultLinearScheduler.bound s)"
    and "float_le (Finite 0) (step_per_epoch s)"
  shows "(float_le (DefaultLinearScheduler.bound s) (fst (step round_binary64 s))
          \<longleftrightarrow> DefaultLinearScheduler.bound s \<noteq> NaN
              \<and> \<not> (DefaultLinearScheduler.bound s = MInf \<and> step_per_epoch s = PInf))
       \<and> DefaultLinearScheduler.bound (snd (step round_binary64 s)) = fst (step round_binary64 s)"
proof -
  have fst: "fst (step round_binary64 s)
             = float_add round_binary64 (DefaultLinearScheduler.bound s) (step_per_epoch s)"
    and snd: "DefaultLinearScheduler.bound (snd (step round_binary64 s))
              = fst (step round_binary64 s)"
    by (simp_all add: step_def Let_def)
  have "float_le (DefaultLinearScheduler.bound s)
          (float_add round_binary64 (DefaultLinearScheduler.bound s) (step_per_epoch s))
        \<longleftrightarrow> DefaultLinearScheduler.bound s \<noteq> NaN
            \<and> \<not> (DefaultLinearScheduler.bound s = MInf \<and> step_per_epoch s = PInf)"
  proof (cases "DefaultLinearScheduler.bound s")
    case (Finite b)
    from assms(1) have b: "float64 b = b" "\<bar>b\<bar> < 2 ^ 1024"
      unfolding Finite by (rule is_binary64_FiniteD)+
    show ?thesis
    proof (cases "step_per_epoch s")
      case (Finite c)
      with assms(2) have "0 \<le> c" by simp
      then have "float64 b \<le> float64 (b + c)" by (intro float64_mono) simp
      then have le: "b \<le> float64 (b + c)" by (simp only: b)
      have "float_le (Finite b) (round_binary64 (b + c))"
        using le b(2) by (simp add: round_binary64_def overflow_cases abs_less_iff)
      then show ?thesis by (simp add: \<open>DefaultLinearScheduler.bound s = Finite b\<close> Finite)
    next
      case PInf
      then show ?thesis by (simp add: Finite)
    next
      case MInf
      with assms(2) show ?thesis by simp
    next
      case NaN
      with assms(2) show ?thesis by simp
    qed
  next
    case PInf
    with assms(2) show ?thesis by (cases "step_per_epoch s") simp_all
  next
    case MInf
    with assms(2) show ?thesis by (cases "step_per_epoch s") simp_all
  next
    case NaN
    then show ?thesis by simp
  qed
  then show ?thesis by (simp only: fst snd simp_thms)
qed

text \<open>
  The theorem at bound \<open>1 / 2\<close> and step \<open>1 / 4\<close>.
\<close>

theorem step_bound_nondecreasing_witness:
  "is_binary64 (DefaultLinearScheduler.bound \<lparr>step_per_epoch = Finite (1 / 4), bound = Finite (1 / 2)\<rparr>)
   \<and> float_le (Finite 0) (step_per_epoch \<lparr>step_per_epoch = Finite (1 / 4), bound = Finite (1 / 2)\<rparr>)
   \<and> fst (step round_binary64 \<lparr>step_per_epoch = Finite (1 / 4), bound = Finite (1 / 2)\<rparr>)
      = Finite (3 / 4)
   \<and> float_le (Finite (1 / 2))
        (fst (step round_binary64 \<lparr>step_per_epoch = Finite (1 / 4), bound = Finite (1 / 2)\<rparr>))
   \<and> DefaultLinearScheduler.bound
        (snd (step round_binary64 \<lparr>step_per_epoch = Finite (1 / 4), bound = Finite (1 / 2)\<rparr>))
      = fst (step round_binary64 \<lparr>step_per_epoch = Finite (1 / 4), bound = Finite (1 / 2)\<rparr>)"
proof -
  let ?s = "\<lparr>step_per_epoch = Finite (1 / 4), bound = Finite (1 / 2)\<rparr>"
  have r: "round_binary64 (1 / 2) = Finite (1 / 2)" by code_simp
  have r': "round_binary64 (3 / 4) = Finite (3 / 4)" by code_simp
  have h1: "is_binary64 (DefaultLinearScheduler.bound ?s)" by (simp add: is_binary64_def r)
  have h2: "float_le (Finite 0) (step_per_epoch ?s)" by simp
  have v: "fst (step round_binary64 ?s) = Finite (3 / 4)" by (simp add: step_def Let_def r')
  from step_bound_nondecreasing [OF h1 h2] h1 h2 v show ?thesis by simp
qed

text \<open>
  Claim C5 as stated fails: at the bound NaN the new bound is NaN, and at the bound
  \<^verbatim>\<open>-inf\<close> with the step \<^verbatim>\<open>inf\<close> it is NaN as well, and no comparison with NaN
  holds.
\<close>

theorem step_bound_not_a_number:
  "float_le (Finite 0) (step_per_epoch \<lparr>step_per_epoch = Finite (1 / 4), bound = NaN\<rparr>)
   \<and> fst (step round_binary64 \<lparr>step_per_epoch = Finite (1 / 4), bound = NaN\<rparr>) = NaN
   \<and> \<not> float_le (DefaultLinearScheduler.bound \<lparr>step_per_epoch = Finite (1 / 4), bound = NaN\<rparr>)
          (fst (step round_binary64 \<lparr>step_per_epoch = Finite (1 / 4), bound = NaN\<rparr>))
   \<and> float_le (Finite 0) (step_per_epoch \<lparr>step_per_epoch = PInf, bound = MInf\<rparr>)
   \<and> fst (step round_binary64 \<lparr>step_per_epoch = PInf, bound = MInf\<rparr>) = NaN
   \<and> \<not> float_le (DefaultLinearScheduler.bound \<lparr>step_per_epoch = PInf, bound = MInf\<rparr>)
          (fst (step round_binary64 \<lparr>step_per_epoch = PInf, bound = MInf\<rparr>))"
  by (simp add: step_def)

section \<open>Properties of the adversarial patch attack\<close>

text \<open>
  The assertion on the postprocessing defences holds for every value of the attribute.
\<close>

lemma postprocessing_assertion_holds: "postprocessing_assertion defences"
  by (cases defences) (simp_all add: postprocessing_assertion_def)

text \<open>
  Claim C3.  The claim says that construction fails for every classifier with a non-empty
  list of postprocessing defences.  The code evaluated on such a classifier: the constructor
  returns the attack object.
\<close>

theorem init_accepts_postprocessing_defences:
  "postprocessing_defences example_estimator = Some [''HighConfidence'']
   \<and> init example_estimator 5 (Some (1, 1, 1)) = Inr example_attack"
  by (simp add: example_estimator_def example_attack_def init_def postprocessing_assertion_def
      ones_def)

text \<open>
  With clip values that are binary32 numbers the constraint clips to the clip values
  themselves, and it brings every value into their range, whatever the arithmetic of the
  update.  \<^verbatim>\<open>reset_patch\<close> stores the binary32 rounding of its argument in every entry
  of the patch.
\<close>

lemma clip_by_value_within:
  "lo \<le> hi \<Longrightarrow> lo \<le> clip_by_value x lo hi \<and> clip_by_value x lo hi \<le> hi"
  by (simp add: clip_by_value_def)

lemma constraint_within:
  assumes "round_binary32 (fst (clip_values E)) = Finite (fst (clip_values E))"
    and "round_binary32 (snd (clip_values E)) = Finite (snd (clip_values E))"
    and "fst (clip_values E) \<le> snd (clip_values E)"
  shows "fst (clip_values E) \<le> constraint E x \<and> constraint E x \<le> snd (clip_values E)"
proof -
  have "float32 (fst (clip_values E)) = fst (clip_values E)"
    and "float32 (snd (clip_values E)) = snd (clip_values E)"
    using round_binary32_FiniteD [OF assms(1)] round_binary32_FiniteD [OF assms(2)] by simp_all
  then show ?thesis using assms(3) by (simp add: constraint_def clip_by_value_within)
qed

lemma apply_gradients_within:
  assumes "round_binary32 (fst (clip_values E)) = Finite (fst (clip_values E))"
    and "round_binary32 (snd (clip_values E)) = Finite (snd (clip_values E))"
    and "fst (clip_values E) \<le> snd (clip_values E)"
  shows "within_clip_values E (apply_gradients (constraint E) lr gradients var)"
  using constraint_within [OF assms]
  by (simp add: within_clip_values_def apply_gradients_def list_all_iff)

lemma train_step_within:
  assumes "round_binary32 (fst (clip_values E)) = Finite (fst (clip_values E))"
    and "round_binary32 (snd (clip_values E)) = Finite (snd (clip_values E))"
    and "fst (clip_values E) \<le> snd (clip_values E)"
  shows "within_clip_values E (patch (snd (train_step E a images target)))"
  using apply_gradients_within [OF assms]
  by (simp add: train_step_def Let_def split: prod.splits option.splits)

lemma ones_replicate: "ones (w, h, c) = replicate (w * h * c) 1"
  by (simp add: ones_def)

lemma assign_replicate:
  assumes "round_binary32 v = Finite r"
  shows "assign (replicate n v) = Inr (replicate n r)"
  by (induction n) (simp_all add: assms)

lemma reset_patch_finite:
  assumes "round_binary32 v = Finite r"
  shows "reset_patch a v
         = Inr (a\<lparr>patch := replicate (fst (patch_shape a) * fst (snd (patch_shape a))
                                        * snd (snd (patch_shape a))) r\<rparr>)"
  by (cases "patch_shape a")
     (simp add: reset_patch_def Let_def ones_def map_replicate zip_replicate
        assign_replicate [OF assms])

lemma reset_patch_within_iff:
  assumes "0 < fst (patch_shape a) * fst (snd (patch_shape a)) * snd (snd (patch_shape a))"
    and "round_binary32 v = Finite r" and "reset_patch a v = Inr a'"
  shows "within_clip_values E (patch a')
         \<longleftrightarrow> fst (clip_values E) \<le> r \<and> r \<le> snd (clip_values E)"
  using assms(1,3) unfolding reset_patch_finite [OF assms(2)]
  by (auto simp: within_clip_values_def list_all_iff)

lemma patch_shape_call:
  assumes "call E a c = Inr a'"
  shows "patch_shape a' = patch_shape a"
  using assms
  by (cases c)
     (auto simp: train_step_def reset_patch_def Let_def split: prod.splits option.splits sum.splits)

lemma calls_snoc:
  "calls E a (cs @ [c]) = (case calls E a cs of Inl e \<Rightarrow> Inl e | Inr a' \<Rightarrow> call E a' c)"
  by (induction cs arbitrary: a) (simp_all split: sum.splits)

lemma patch_shape_calls:
  assumes "calls E a cs = Inr a'"
  shows "patch_shape a' = patch_shape a"
  using assms
proof (induction cs arbitrary: a)
  case Nil
  then show ?case by simp
next
  case (Cons c cs)
  then obtain a1 where c: "call E a c = Inr a1" and cs: "calls E a1 cs = Inr a'"
    by (auto split: sum.splits)
  from Cons.IH [OF cs] patch_shape_call [OF c] show ?case by simp
qed

lemma calls_returns:
  assumes "\<forall>v. ResetPatch v \<in> set cs \<longrightarrow> round_binary32 v = Finite (float32 v)"
  shows "\<exists>a'. calls E a cs = Inr a'"
  using assms
proof (induction cs arbitrary: a)
  case Nil
  show ?case by simp
next
  case (Cons c cs)
  have "\<exists>a1. call E a c = Inr a1"
  proof (cases c)
    case (TrainStep images target)
    then show ?thesis by simp
  next
    case (ResetPatch v)
    with Cons.prems have "round_binary32 v = Finite (float32 v)" by simp
    from reset_patch_finite [OF this] show ?thesis by (simp add: ResetPatch)
  qed
  then obtain a1 where a1: "call E a c = Inr a1" ..
  from Cons.prems have "\<forall>v. ResetPatch v \<in> set cs \<longrightarrow> round_binary32 v = Finite (float32 v)"
    by simp
  from Cons.IH [OF this] obtain a' where "calls E a1 cs = Inr a'" ..
  then show ?case by (simp add: a1)
qed

text \<open>
  Claim C1, as amended.  For clip values that are binary32 numbers with
  \<^verbatim>\<open>clip_values[0] <= clip_values[1]\<close>, a non-empty patch, finite gradients, and every
  non-empty sequence of training iterations and calls of \<^verbatim>\<open>reset_patch\<close> with finite
  values that do not overflow in binary32: the calls return, and the patch lies within the
  clip values after a training iteration; after \<^verbatim>\<open>reset_patch(v)\<close> it lies within them
  exactly if the binary32 rounding of \<open>v\<close> does, since that value is assigned without
  clipping.
\<close>

theorem patch_within_clip_values:
  assumes "round_binary32 (fst (clip_values E)) = Finite (fst (clip_values E))"
    and "round_binary32 (snd (clip_values E)) = Finite (snd (clip_values E))"
    and "fst (clip_values E) \<le> snd (clip_values E)"
    and "0 < fst (patch_shape a) * fst (snd (patch_shape a)) * snd (snd (patch_shape a))"
    and "\<forall>v. ResetPatch v \<in> set (before @ [c]) \<longrightarrow> round_binary32 v = Finite (float32 v)"
  shows "\<exists>a'. calls E a (before @ [c]) = Inr a'
          \<and> (within_clip_values E (patch a')
               \<longleftrightarrow> (case c of
                      TrainStep images target \<Rightarrow> True
                    | ResetPatch v \<Rightarrow>
                        fst (clip_values E) \<le> float32 v \<and> float32 v \<le> snd (clip_values E)))"
proof -
  from calls_returns [OF assms(5)] obtain a' where a': "calls E a (before @ [c]) = Inr a'" ..
  then obtain a1 where a1: "calls E a before = Inr a1" and c: "call E a1 c = Inr a'"
    by (auto simp: calls_snoc split: sum.splits)
  have "within_clip_values E (patch a')
        \<longleftrightarrow> (case c of
               TrainStep images target \<Rightarrow> True
             | ResetPatch v \<Rightarrow>
                 fst (clip_values E) \<le> float32 v \<and> float32 v \<le> snd (clip_values E))"
  proof (cases c)
    case (TrainStep images target)
    with c have "a' = snd (train_step E a1 images target)" by simp
    then show ?thesis using train_step_within [OF assms(1-3)] by (simp add: TrainStep)
  next
    case (ResetPatch v)
    with assms(5) have v: "round_binary32 v = Finite (float32 v)" by simp
    have n: "0 < fst (patch_shape a1) * fst (snd (patch_shape a1)) * snd (snd (patch_shape a1))"
      using assms(4) by (simp add: patch_shape_calls [OF a1])
    from c have r: "reset_patch a1 v = Inr a'" by (simp add: ResetPatch)
    from reset_patch_within_iff [OF n v r] show ?thesis by (simp add: ResetPatch)
  qed
  with a' show ?thesis by blast
qed

text \<open>
  The theorem at three sequences of calls: a training iteration brings a patch reset to
  \<open>5\<close> back into the range; a reset to \<open>1 + 2 powi (- 30)\<close>, which is above the range, stores
  its binary32 rounding \<open>1\<close>, which is in the range; a reset to \<open>5\<close> leaves the range.
\<close>

theorem patch_within_clip_values_witness:
  "round_binary32 (fst (clip_values example_estimator)) = Finite (fst (clip_values example_estimator))
   \<and> round_binary32 (snd (clip_values example_estimator)) = Finite (snd (clip_values example_estimator))
   \<and> clip_values example_estimator = (0, 1)
   \<and> patch_shape example_attack = (1, 1, 1)
   \<and> round_binary32 5 = Finite (float32 5)
   \<and> round_binary32 (1 + 1 / 2 ^ 30) = Finite (float32 (1 + 1 / 2 ^ 30))
   \<and> float32 5 = 5 \<and> float32 (1 + 1 / 2 ^ 30) = 1
   \<and> (\<exists>a'. calls example_estimator example_attack [ResetPatch 5, TrainStep () None] = Inr a'
          \<and> within_clip_values example_estimator (patch a'))
   \<and> (\<exists>a'. calls example_estimator example_attack [TrainStep () None, ResetPatch (1 + 1 / 2 ^ 30)]
            = Inr a'
          \<and> within_clip_values example_estimator (patch a'))
   \<and> (\<exists>a'. calls example_estimator example_attack [TrainStep () None, ResetPatch 5] = Inr a'
          \<and> \<not> within_clip_values example_estimator (patch a'))"
proof -
  have c: "clip_values example_estimator = (0, 1)" by (simp add: example_estimator_def)
  have r0: "round_binary32 0 = Finite 0" and r1: "round_binary32 1 = Finite 1" by code_simp+
  have f5: "float32 5 = 5" and fv: "float32 (1 + 1 / 2 ^ 30) = 1" by code_simp+
  have r5: "round_binary32 5 = Finite (float32 5)"
    and rv: "round_binary32 (1 + 1 / 2 ^ 30) = Finite (float32 (1 + 1 / 2 ^ 30))" by code_simp+
  have h1: "round_binary32 (fst (clip_values example_estimator))
            = Finite (fst (clip_values example_estimator))"
    and h2: "round_binary32 (snd (clip_values example_estimator))
            = Finite (snd (clip_values example_estimator))"
    and h3: "fst (clip_values example_estimator) \<le> snd (clip_values example_estimator)"
    by (simp_all add: c r0 r1)
  have p: "patch_shape example_attack = (1, 1, 1)" by (simp add: example_attack_def)
  have h4: "0 < fst (patch_shape example_attack) * fst (snd (patch_shape example_attack))
              * snd (snd (patch_shape example_attack))"
    by (simp add: p)
  have s1: "\<forall>v. ResetPatch v \<in> set ([ResetPatch 5] @ [TrainStep () None :: (unit, unit) patch_call])
              \<longrightarrow> round_binary32 v = Finite (float32 v)"
    and s3: "\<forall>v. ResetPatch v \<in> set ([TrainStep () None :: (unit, unit) patch_call] @ [ResetPatch 5])
              \<longrightarrow> round_binary32 v = Finite (float32 v)"
    using r5 by simp_all
  have s2: "\<forall>v. ResetPatch v \<in> set ([TrainStep () None :: (unit, unit) patch_call]
                @ [ResetPatch (1 + 1 / 2 ^ 30)])
              \<longrightarrow> round_binary32 v = Finite (float32 v)"
  proof (intro allI impI)
    fix v :: rat
    assume "ResetPatch v \<in> set ([TrainStep () None :: (unit, unit) patch_call]
                @ [ResetPatch (1 + 1 / 2 ^ 30)])"
    then have "v = 1 + 1 / 2 ^ 30" by simp
    then show "round_binary32 v = Finite (float32 v)" by (simp only: rv)
  qed
  from patch_within_clip_values [OF h1 h2 h3 h4 s1]
    patch_within_clip_values [OF h1 h2 h3 h4 s2]
    patch_within_clip_values [OF h1 h2 h3 h4 s3]
    h1 h2 c p r5 rv f5 fv
  show ?thesis by (simp add: c f5 fv)
qed

text \<open>
  Claim C1 as stated fails: with clip values \<open>(0, 1)\<close>, \<^verbatim>\<open>reset_patch(5)\<close> stores
  \<open>5\<close> in the patch.
\<close>

theorem reset_patch_leaves_clip_values:
  "clip_values example_estimator = (0, 1)
   \<and> reset_patch example_attack 5 = Inr (example_attack\<lparr>patch := [5]\<rparr>)
   \<and> \<not> within_clip_values example_estimator (patch (example_attack\<lparr>patch := [5]\<rparr>))"
proof -
  have r: "round_binary32 5 = Finite 5" by code_simp
  have "reset_patch example_attack 5 = Inr (example_attack\<lparr>patch := [5]\<rparr>)"
    unfolding reset_patch_finite [OF r] by (simp add: example_attack_def)
  then show ?thesis
    by (simp add: example_estimator_def within_clip_values_def)
qed

text \<open>
  Claim C7.  Without a target the update adds \<^verbatim>\<open>learning_rate\<close> times the gradient of
  the loss at the predicted labels to the patch; with a target it subtracts
  \<^verbatim>\<open>learning_rate\<close> times the gradient of the loss at the target.  The constraint of the
  variable is applied to the result in both cases.
\<close>

theorem train_step_gradient_sign:
  "patch (snd (train_step E a images None))
     = map (constraint E)
         (map2 (\<lambda>v g. v + learning_rate a * g) (patch a)
            (snd (tape_gradient E (patch a) images (predict E images))))
   \<and> patch (snd (train_step E a images (Some t)))
     = map (constraint E)
         (map2 (\<lambda>v g. v - learning_rate a * g) (patch a)
            (snd (tape_gradient E (patch a) images t)))"
  by (simp add: train_step_def Let_def apply_gradients_def zip_map2 split: prod.splits)

section \<open>Properties of the certified trainer\<close>

subsection \<open>Errors before training\<close>

text \<open>
  Claim C9.  Where the classifier has no optimizer, \<^verbatim>\<open>fit\<close> raises
  \<^verbatim>\<open>ValueError\<close>; the only call made before is the one that sets the training mode of
  the network, so no optimizer step and no update of the parameters has taken place.
\<close>

theorem fit_without_optimizer:
  assumes "optimizer C = None"
  shows "fst (fit fl T C data certification_loss batch_size' nb_epochs' training_mode scheduler w)
           = Some ValueError
       \<and> trace (snd (fit fl T C data certification_loss batch_size' nb_epochs' training_mode scheduler w))
           = [TrainMode training_mode]
       \<and> world (snd (fit fl T C data certification_loss batch_size' nb_epochs' training_mode scheduler w))
           = train C training_mode w"
  using assms by (simp add: fit_def fit_init_def)

text \<open>
  The theorem at the example classifier without its optimizer.
\<close>

theorem fit_without_optimizer_witness:
  "optimizer (example_certifier\<lparr>optimizer := None\<rparr>) = None
   \<and> fst (fit round_binary64 example_trainer (example_certifier\<lparr>optimizer := None\<rparr>) [(1, 0), (2, 1)]
        (LossName ''interval_loss_cce'') None None True False 0) = Some ValueError
   \<and> trace (snd (fit round_binary64 example_trainer (example_certifier\<lparr>optimizer := None\<rparr>) [(1, 0), (2, 1)]
        (LossName ''interval_loss_cce'') None None True False 0)) = [TrainMode True]
   \<and> world (snd (fit round_binary64 example_trainer (example_certifier\<lparr>optimizer := None\<rparr>) [(1, 0), (2, 1)]
        (LossName ''interval_loss_cce'') None None True False 0)) = 0"
proof -
  have h: "optimizer (example_certifier\<lparr>optimizer := None\<rparr>) = None" by simp
  from fit_without_optimizer [OF h, of round_binary64 example_trainer "[(1, 0), (2, 1)]"
      "LossName ''interval_loss_cce''" None None True False 0] h
  show ?thesis by (simp add: example_certifier_def)
qed

lemma advance_bound_unbound:
  assumes "use_certification_schedule T" "certification_schedule_function s = None"
  shows "advance_bound fl T s = (Some UnboundLocalError, s)"
  using assms by (simp add: advance_bound_def)

text \<open>
  Claim C8.  The claim says that with a user-supplied certification schedule the bound of
  an epoch comes from the \<^verbatim>\<open>step\<close> method of that schedule.  The code on such a trainer,
  with an optimizer and at least one epoch: \<^verbatim>\<open>certification_schedule_function\<close> is
  unbound when the first epoch reads it, \<^verbatim>\<open>fit\<close> raises and nothing was called but
  the switch of the training mode.
\<close>

theorem fit_supplied_schedule_unbound:
  assumes "use_certification_schedule T" and "certification_schedule T = Some user_schedule"
    and "optimizer C = Some opt" and "pgd_batch_size T \<noteq> 0"
    and "fit_epochs T nb_epochs' = Some epochs" and "0 < epochs"
  shows "fit fl T C data certification_loss batch_size' nb_epochs' training_mode scheduler w
         = (Some UnboundLocalError, fit_init C data training_mode w)"
proof -
  let ?s0 = "fit_init C data training_mode w"
  have a: "schedule_setup fl T (Some epochs) ?s0 = (None, ?s0)"
    using assms(1,2) by (simp add: schedule_setup_def)
  have b: "certification_schedule_function ?s0 = None"
    by (simp add: fit_init_def)
  obtain n where n: "nat epochs = Suc n"
    using assms(6) by (cases "nat epochs") simp_all
  have c: "epoch_loop fl T C opt certification_loss bs scheduler data nb (nat epochs) ?s0
           = (Some UnboundLocalError, ?s0)" for bs nb
    unfolding n by (simp add: epoch_body_def advance_bound_unbound [OF assms(1) b])
  show ?thesis
    using assms(3,4,5) by (simp add: fit_def fit_num_batch_def a c)
qed

text \<open>
  The theorem at the example trainer with a linear schedule supplied by the caller.
\<close>

theorem fit_supplied_schedule_unbound_witness:
  "use_certification_schedule (example_trainer\<lparr>use_certification_schedule := True,
       certification_schedule := Some (DefaultLinearScheduler_init (Finite (1 / 100)) (Finite 0))\<rparr>)
   \<and> certification_schedule (example_trainer\<lparr>use_certification_schedule := True,
       certification_schedule := Some (DefaultLinearScheduler_init (Finite (1 / 100)) (Finite 0))\<rparr>)
       = Some (DefaultLinearScheduler_init (Finite (1 / 100)) (Finite 0))
   \<and> optimizer example_certifier = Some example_optimizer
   \<and> pgd_batch_size (example_trainer\<lparr>use_certification_schedule := True,
       certification_schedule := Some (DefaultLinearScheduler_init (Finite (1 / 100)) (Finite 0))\<rparr>) \<noteq> 0
   \<and> fit_epochs (example_trainer\<lparr>use_certification_schedule := True,
       certification_schedule := Some (DefaultLinearScheduler_init (Finite (1 / 100)) (Finite 0))\<rparr>) None = Some 2
   \<and> (0::int) < 2
   \<and> fit round_binary64 (example_trainer\<lparr>use_certification_schedule := True,
          certification_schedule := Some (DefaultLinearScheduler_init (Finite (1 / 100)) (Finite 0))\<rparr>)
        example_certifier [(1, 0), (2, 1)] (LossName ''interval_loss_cce'') None None True False 0
      = (Some UnboundLocalError, fit_init example_certifier [(1, 0), (2, 1)] True 0)"
proof -
  let ?T = "example_trainer\<lparr>use_certification_schedule := True,
       certification_schedule := Some (DefaultLinearScheduler_init (Finite (1 / 100)) (Finite 0))\<rparr>"
  have h1: "use_certification_schedule ?T" by simp
  have h2: "certification_schedule ?T = Some (DefaultLinearScheduler_init (Finite (1 / 100)) (Finite 0))" by simp
  have h3: "optimizer example_certifier = Some example_optimizer"
    by (simp add: example_certifier_def)
  have h4: "pgd_batch_size ?T \<noteq> 0" by (simp add: example_trainer_def)
  have h5: "fit_epochs ?T None = Some 2" by (simp add: fit_epochs_def example_trainer_def)
  have h6: "(0::int) < 2" by simp
  from fit_supplied_schedule_unbound [OF h1 h2 h3 h4 h5 h6] h1 h2 h3 h4 h5 h6
  show ?thesis by blast
qed

subsection \<open>The schedule at the start of an epoch\<close>

text \<open>
  The calls of an execution are appended to the trace, and only the first statement of an
  epoch assigns the bound.
\<close>

lemma certification_loop_eq:
  "certification_loop C p z ks (rs, tr)
   = (rs @ map (\<lambda>k. certify_via_subtraction C p k z) (filter (\<lambda>k. k \<noteq> p) ks),
      tr @ map (CertifyViaSubtraction p) (filter (\<lambda>k. k \<noteq> p) ks))"
  by (induction ks arbitrary: rs tr) simp_all

lemma sample_body_extends:
  "(\<exists>r. trace (snd (sample_body T C certification_loss x l s)) = trace s @ r)
   \<and> fit_state.bound (snd (sample_body T C certification_loss x l s)) = fit_state.bound s"
  by (auto simp: sample_body_def Let_def emit_def certification_loop_eq
      split: option.splits sum.splits prod.splits)

lemma sample_loop_extends:
  "(\<exists>r. trace (snd (sample_loop T C certification_loss bs i xs s)) = trace s @ r)
   \<and> fit_state.bound (snd (sample_loop T C certification_loss bs i xs s)) = fit_state.bound s"
proof (induction xs arbitrary: i s)
  case Nil
  show ?case by simp
next
  case (Cons xl xs)
  obtain x l where xl: "xl = (x, l)" by (cases xl)
  obtain r s1 where b: "sample_body T C certification_loss x l s = (r, s1)"
    by (cases "sample_body T C certification_loss x l s")
  from sample_body_extends [of T C certification_loss x l s]
  obtain r1 where c: "trace s1 = trace s @ r1" "fit_state.bound s1 = fit_state.bound s"
    by (auto simp: b)
  from Cons.IH [of "Suc i" s1]
  obtain r2 where d: "trace (snd (sample_loop T C certification_loss bs (Suc i) xs s1)) = trace s1 @ r2"
    "fit_state.bound (snd (sample_loop T C certification_loss bs (Suc i) xs s1)) = fit_state.bound s1"
    by blast
  show ?case
    using c d by (auto simp: xl b split: option.splits)
qed

lemma divide_certified_loss_extends:
  "trace (snd (divide_certified_loss bs s)) = trace s
   \<and> fit_state.bound (snd (divide_certified_loss bs s)) = fit_state.bound s"
  by (simp add: divide_certified_loss_def split: option.splits)

lemma pgd_part_extends:
  "(\<exists>r. trace (snd (pgd_part T C opt data m s)) = trace s @ r)
   \<and> fit_state.bound (snd (pgd_part T C opt data m s)) = fit_state.bound s"
  by (simp add: pgd_part_def Let_def emit_def split: sum.splits prod.splits)

lemma batch_body_extends:
  "(\<exists>r. trace (snd (batch_body T C opt certification_loss bs data m s)) = trace s @ r)
   \<and> fit_state.bound (snd (batch_body T C opt certification_loss bs data m s)) = fit_state.bound s"
proof -
  obtain xy w where sh: "shuffle C (zero_grad opt (world s)) (x_cert s) = (xy, w)"
    by (cases "shuffle C (zero_grad opt (world s)) (x_cert s)")
  let ?s3 = "s\<lparr>certified_loss := 0, samples_certified := 0, world := w, x_cert := xy,
      trace := trace s @ [ZeroGrad, Shuffle]\<rparr>"
  obtain r4 s4 where l: "sample_loop T C certification_loss bs 0 xy ?s3 = (r4, s4)"
    by (cases "sample_loop T C certification_loss bs 0 xy ?s3")
  obtain r5 s5 where d: "divide_certified_loss bs s4 = (r5, s5)"
    by (cases "divide_certified_loss bs s4")
  from sample_loop_extends [of T C certification_loss bs 0 xy ?s3]
  obtain q4 where c4: "trace s4 = trace s @ [ZeroGrad, Shuffle] @ q4"
    "fit_state.bound s4 = fit_state.bound s"
    by (auto simp: l)
  from divide_certified_loss_extends [of bs s4]
  have c5: "trace s5 = trace s4" "fit_state.bound s5 = fit_state.bound s4"
    by (simp_all add: d)
  from pgd_part_extends [of T C opt data m s5]
  obtain q6 where c6: "trace (snd (pgd_part T C opt data m s5)) = trace s5 @ q6"
    "fit_state.bound (snd (pgd_part T C opt data m s5)) = fit_state.bound s5"
    by blast
  show ?thesis
    using c4 c5 c6
    by (auto simp: batch_body_def Let_def emit_def sh l d split: option.splits)
qed

lemma batch_loop_extends:
  "(\<exists>r. trace (snd (batch_loop T C opt certification_loss bs data ms s)) = trace s @ r)
   \<and> fit_state.bound (snd (batch_loop T C opt certification_loss bs data ms s)) = fit_state.bound s"
proof (induction ms arbitrary: s)
  case Nil
  show ?case by simp
next
  case (Cons m ms)
  obtain r s1 where b: "batch_body T C opt certification_loss bs data m s = (r, s1)"
    by (cases "batch_body T C opt certification_loss bs data m s")
  from batch_body_extends [of T C opt certification_loss bs data m s]
  obtain q1 where c: "trace s1 = trace s @ q1" "fit_state.bound s1 = fit_state.bound s"
    by (auto simp: b)
  from Cons.IH [of s1]
  obtain q2 where d: "trace (snd (batch_loop T C opt certification_loss bs data ms s1)) = trace s1 @ q2"
    "fit_state.bound (snd (batch_loop T C opt certification_loss bs data ms s1)) = fit_state.bound s1"
    by blast
  show ?case using c d by (auto simp: b split: option.splits)
qed

lemma advance_bound_default:
  assumes "use_certification_schedule T" "certification_schedule_function s = Some f"
  shows "advance_bound fl T s =
    (None, s\<lparr>certification_schedule_function := Some (snd (step fl f)),
              fit_state.bound := Some (fst (step fl f)),
              trace := trace s @ [CertificationScheduleStep]\<rparr>)"
  using assms by (simp add: advance_bound_def emit_def split: prod.splits)

text \<open>
  With the schedule that \<^verbatim>\<open>fit\<close> builds itself, an epoch first calls
  \<^verbatim>\<open>step\<close>, then shuffles the indices, and the bound of the epoch is the value that
  \<^verbatim>\<open>step\<close> returned, whether or not a batch raises later.
\<close>

lemma epoch_body_default_schedule:
  assumes "use_certification_schedule T" "certification_schedule_function s = Some f"
  shows "\<exists>rest. trace (snd (epoch_body fl T C opt certification_loss bs scheduler data num_batch s))
            = trace s @ [CertificationScheduleStep, RandomShuffle] @ rest"
    and "fit_state.bound (snd (epoch_body fl T C opt certification_loss bs scheduler data num_batch s))
           = Some (fst (step fl f))"
proof -
  let ?s1 = "s\<lparr>certification_schedule_function := Some (snd (step fl f)),
              fit_state.bound := Some (fst (step fl f)),
              trace := trace s @ [CertificationScheduleStep]\<rparr>"
  obtain ind' w where sh: "random_shuffle C (world s) (ind s) = (ind', w)"
    by (cases "random_shuffle C (world s) (ind s)")
  let ?s2 = "s\<lparr>certification_schedule_function := Some (snd (step fl f)),
              fit_state.bound := Some (fst (step fl f)), world := w, ind := ind',
              trace := trace s @ [CertificationScheduleStep, RandomShuffle]\<rparr>"
  obtain r3 s3 where l: "batch_loop T C opt certification_loss bs data [0..<num_batch] ?s2 = (r3, s3)"
    by (cases "batch_loop T C opt certification_loss bs data [0..<num_batch] ?s2")
  from batch_loop_extends [of T C opt certification_loss bs data "[0..<num_batch]" ?s2]
  obtain q where c: "trace s3 = trace s @ [CertificationScheduleStep, RandomShuffle] @ q"
    "fit_state.bound s3 = Some (fst (step fl f))"
    by (auto simp: l)
  have e: "epoch_body fl T C opt certification_loss bs scheduler data num_batch s
        = (case r3 of Some e \<Rightarrow> (Some e, s3)
           | None \<Rightarrow> (None, if scheduler then emit SchedulerStep s3 else s3))"
    by (simp add: epoch_body_def advance_bound_default [OF assms] sh Let_def emit_def l
        split: option.splits)
  show "\<exists>rest. trace (snd (epoch_body fl T C opt certification_loss bs scheduler data num_batch s))
            = trace s @ [CertificationScheduleStep, RandomShuffle] @ rest"
    using c by (cases r3) (simp_all add: e emit_def)
  show "fit_state.bound (snd (epoch_body fl T C opt certification_loss bs scheduler data num_batch s))
           = Some (fst (step fl f))"
    using c by (cases r3) (simp_all add: e emit_def)
qed

subsection \<open>The certification of a sample\<close>

lemma all_certification_results:
  "list_all id (map (\<lambda>k. certify_via_subtraction C p k z) (filter (\<lambda>k. k \<noteq> p) [0..<n]))
   \<longleftrightarrow> (\<forall>k<n. k \<noteq> p \<longrightarrow> certify_via_subtraction C p k z)"
  by (auto simp: list_all_iff)

lemma sample_body_success:
  assumes "fit_state.bound s = Some b" "concrete_to_zonotope T = None"
    and "loss_term C certification_loss (forward_abstract C (world s) sample b) label = Inr l"
  shows "sample_body T C certification_loss sample label s =
    (None,
     s\<lparr>certified_loss := certified_loss s + l,
       trace := trace s @ [SetForwardMode Concrete, SetForwardMode Abstract]
                @ map (CertifyViaSubtraction (forward_argmax C (world s) sample))
                    (filter (\<lambda>k. k \<noteq> forward_argmax C (world s) sample) [0..<nb_classes C]),
       samples_certified := samples_certified s
         + (if \<forall>k<nb_classes C. k \<noteq> forward_argmax C (world s) sample
                  \<longrightarrow> certify_via_subtraction C (forward_argmax C (world s) sample) k
                        (forward_abstract C (world s) sample b)
            then 1 else 0)\<rparr>)"
  using assms
  by (auto simp add: sample_body_def Let_def emit_def certification_loop_eq all_certification_results)

text \<open>
  Claim C2, as amended.  In the step for one sample the certification check is evaluated
  against the class that the network predicts for the sample, the argmax of the concrete
  forward pass, not against its label: \<^verbatim>\<open>certify_via_subtraction\<close> is called once for
  every class \<open>k\<close> other than the predicted class, in increasing order, with the predicted
  class as \<^verbatim>\<open>predicted_class\<close>, and the sample counts as certified exactly if every
  such check returns true.
\<close>

theorem sample_body_certification:
  assumes "fit_state.bound s = Some b" and "concrete_to_zonotope T = None"
    and "loss_term C certification_loss (forward_abstract C (world s) sample b) label = Inr l"
  shows "let concrete_pred = forward_argmax C (world s) sample;
             z = forward_abstract C (world s) sample b
         in \<exists>s'. sample_body T C certification_loss sample label s = (None, s')
              \<and> trace s' = trace s @ [SetForwardMode Concrete, SetForwardMode Abstract]
                    @ map (CertifyViaSubtraction concrete_pred)
                        (filter (\<lambda>k. k \<noteq> concrete_pred) [0..<nb_classes C])
              \<and> (samples_certified s' = samples_certified s + 1
                   \<longleftrightarrow> (\<forall>k<nb_classes C. k \<noteq> concrete_pred
                          \<longrightarrow> certify_via_subtraction C concrete_pred k z))
              \<and> (samples_certified s' = samples_certified s
                   \<longleftrightarrow> \<not> (\<forall>k<nb_classes C. k \<noteq> concrete_pred
                          \<longrightarrow> certify_via_subtraction C concrete_pred k z))"
  unfolding Let_def sample_body_success [OF assms] by auto

text \<open>
  The theorem at a sample with label \<open>1\<close> that the network assigns to class \<open>0\<close>.
\<close>

theorem sample_body_certification_witness:
  "fit_state.bound example_state = Some (Finite (1 / 10))
   \<and> concrete_to_zonotope example_trainer = None
   \<and> loss_term example_certifier (LossName ''interval_loss_cce'')
        (forward_abstract example_certifier (world example_state) 3 (Finite (1 / 10))) 1 = Inr (31 / 10)
   \<and> (\<exists>s'. sample_body example_trainer example_certifier (LossName ''interval_loss_cce'') 3 1
              example_state = (None, s')
          \<and> trace s' = [SetForwardMode Concrete, SetForwardMode Abstract, CertifyViaSubtraction 0 1]
          \<and> samples_certified s' = 1)"
proof -
  have h1: "fit_state.bound example_state = Some (Finite (1 / 10))" by (simp add: example_state_def)
  have h2: "concrete_to_zonotope example_trainer = None" by (simp add: example_trainer_def)
  have h3: "loss_term example_certifier (LossName ''interval_loss_cce'')
      (forward_abstract example_certifier (world example_state) 3 (Finite (1 / 10))) 1 = Inr (31 / 10)"
    by (simp add: loss_term_def example_certifier_def)
  have e: "forward_argmax example_certifier (world example_state) 3 = 0"
    "nb_classes example_certifier = 2" "trace example_state = []"
    "samples_certified example_state = 0"
    "\<And>k. certify_via_subtraction example_certifier 0 k
        (forward_abstract example_certifier (world example_state) 3 (Finite (1 / 10)))"
    by (simp_all add: example_certifier_def example_state_def)
  from sample_body_certification [OF h1 h2 h3] h1 h2 h3 show ?thesis
    by (auto simp: Let_def e upt_rec numeral_2_eq_2)
qed

text \<open>
  Claim C2 as stated fails: for a sample with label \<open>1\<close> and prediction \<open>0\<close> the only
  call is \<^verbatim>\<open>certify_via_subtraction(predicted_class=0, class_to_consider=1)\<close>, and the
  sample counts as certified although the check with the label as dominating class fails.
\<close>

theorem certification_against_prediction:
  "forward_argmax example_certifier (world example_state) 3 = 0
   \<and> trace (snd (sample_body example_trainer example_certifier (LossName ''interval_loss_cce'')
        3 1 example_state))
     = [SetForwardMode Concrete, SetForwardMode Abstract, CertifyViaSubtraction 0 1]
   \<and> samples_certified (snd (sample_body example_trainer example_certifier
        (LossName ''interval_loss_cce'') 3 1 example_state)) = 1
   \<and> \<not> certify_via_subtraction example_certifier 1 0
        (forward_abstract example_certifier (world example_state) 3 (Finite (1 / 10)))"
  by (simp add: sample_body_def example_trainer_def example_certifier_def example_state_def
      loss_term_def emit_def Let_def upt_rec numeral_2_eq_2)

subsection \<open>The samples of a batch\<close>

lemma count_list_certify:
  assumes "\<And>k. e \<noteq> CertifyViaSubtraction p k"
  shows "count_list (map (CertifyViaSubtraction p) ks) e = 0"
  using assms by (induction ks) auto

text \<open>
  For a batch size of at least two the loop over the samples takes the first
  \<^verbatim>\<open>batch_size\<close> samples, or all of them if there are fewer; for the batch size one it
  takes two.
\<close>

lemma sample_loop_from:
  assumes "concrete_to_zonotope T = None"
    and "\<And>x l. loss_term C certification_loss (forward_abstract C w x bd) l = Inr (f x l)"
    and "2 \<le> b" and "int i < b"
    and "fit_state.bound s = Some bd" and "world s = w"
  shows "\<exists>s'. sample_loop T C certification_loss (Some b) i xs s = (None, s')
           \<and> world s' = w \<and> fit_state.bound s' = Some bd
           \<and> certified_loss s'
               = certified_loss s + sum_list (map (\<lambda>(x, l). f x l) (take (nat b - i) xs))
           \<and> count_list (trace s') (SetForwardMode Abstract)
               = count_list (trace s) (SetForwardMode Abstract) + min (nat b - i) (length xs)"
  using assms(4-6)
proof (induction xs arbitrary: i s)
  case Nil
  then show ?case by simp
next
  case (Cons xl xs)
  obtain x l where xl: "xl = (x, l)" by (cases xl)
  note body = sample_body_success [OF Cons.prems(2) assms(1), of C certification_loss x l "f x l",
      unfolded Cons.prems(3), OF assms(2)]
  have "\<exists>s1. sample_body T C certification_loss x l s = (None, s1)
          \<and> world s1 = w \<and> fit_state.bound s1 = Some bd
          \<and> certified_loss s1 = certified_loss s + f x l
          \<and> count_list (trace s1) (SetForwardMode Abstract)
              = count_list (trace s) (SetForwardMode Abstract) + 1"
    using Cons.prems(2,3) by (simp add: body count_list_certify)
  then obtain s1 where s1: "sample_body T C certification_loss x l s = (None, s1)"
    and w1: "world s1 = w" and b1: "fit_state.bound s1 = Some bd"
    and c1: "certified_loss s1 = certified_loss s + f x l"
    and t1: "count_list (trace s1) (SetForwardMode Abstract)
             = count_list (trace s) (SetForwardMode Abstract) + 1"
    by blast
  have b0: "b \<noteq> 0" using assms(3) by simp
  show ?case
  proof (cases "int i + 1 = b")
    case True
    then have i: "0 < i" and m: "(int i + 1) mod b = 0" and n: "nat b - i = 1"
      using assms(3) by simp_all
    have "sample_loop T C certification_loss (Some b) i (xl # xs) s = (None, s1)"
      using s1 b0 i m by (simp add: xl)
    then show ?thesis
      using w1 b1 c1 t1 n by (simp add: xl)
  next
    case False
    with Cons.prems(1) have lt: "int (Suc i) < b" by simp
    then have m: "(int i + 1) mod b \<noteq> 0"
      by simp
    have n: "nat b - i = Suc (nat b - Suc i)" using lt by linarith
    from Cons.IH [OF lt b1 w1] obtain s' where
      s': "sample_loop T C certification_loss (Some b) (Suc i) xs s1 = (None, s')"
        "world s' = w" "fit_state.bound s' = Some bd"
        "certified_loss s'
           = certified_loss s1 + sum_list (map (\<lambda>(x, l). f x l) (take (nat b - Suc i) xs))"
        "count_list (trace s') (SetForwardMode Abstract)
           = count_list (trace s1) (SetForwardMode Abstract) + min (nat b - Suc i) (length xs)"
      by blast
    have "sample_loop T C certification_loss (Some b) i (xl # xs) s = (None, s')"
      using s1 b0 m s'(1) by (simp add: xl)
    then show ?thesis
      using s'(2-5) c1 t1 by (simp add: xl n)
  qed
qed

lemma sample_loop_batch_size_one:
  assumes "concrete_to_zonotope T = None"
    and "\<And>x l. loss_term C certification_loss (forward_abstract C w x bd) l = Inr (f x l)"
    and "fit_state.bound s = Some bd" and "world s = w"
  shows "\<exists>s'. sample_loop T C certification_loss (Some 1) 0 xs s = (None, s')
           \<and> certified_loss s'
               = certified_loss s + sum_list (map (\<lambda>(x, l). f x l) (take 2 xs))
           \<and> count_list (trace s') (SetForwardMode Abstract)
               = count_list (trace s) (SetForwardMode Abstract) + min 2 (length xs)"
proof -
  have step: "\<exists>s1. sample_body T C certification_loss x l s0 = (None, s1)
          \<and> world s1 = w \<and> fit_state.bound s1 = Some bd
          \<and> certified_loss s1 = certified_loss s0 + f x l
          \<and> count_list (trace s1) (SetForwardMode Abstract)
              = count_list (trace s0) (SetForwardMode Abstract) + 1"
    if "fit_state.bound s0 = Some bd" "world s0 = w" for x l s0
    using that sample_body_success [OF that(1) assms(1), of C certification_loss x l "f x l",
        unfolded that(2), OF assms(2)]
    by (simp add: count_list_certify)
  show ?thesis
  proof (cases xs)
    case Nil
    then show ?thesis by simp
  next
    case (Cons xl ys)
    obtain x l where xl: "xl = (x, l)" by (cases xl)
    from step [OF assms(3,4), of x l] obtain s1 where
      s1: "sample_body T C certification_loss x l s = (None, s1)"
        "world s1 = w" "fit_state.bound s1 = Some bd"
        "certified_loss s1 = certified_loss s + f x l"
        "count_list (trace s1) (SetForwardMode Abstract)
           = count_list (trace s) (SetForwardMode Abstract) + 1"
      by blast
    show ?thesis
    proof (cases ys)
      case Nil
      then show ?thesis using s1 by (simp add: Cons xl)
    next
      case (Cons ym zs)
      obtain y m where ym: "ym = (y, m)" by (cases ym)
      from step [OF s1(3,2), of y m] obtain s2 where
        s2: "sample_body T C certification_loss y m s1 = (None, s2)"
          "certified_loss s2 = certified_loss s1 + f y m"
          "count_list (trace s2) (SetForwardMode Abstract)
             = count_list (trace s1) (SetForwardMode Abstract) + 1"
        by blast
      show ?thesis
        using s1 s2 by (simp add: \<open>xs = xl # ys\<close> Cons xl ym)
    qed
  qed
qed

text \<open>
  Claim C6.  The claim says that the loop never adds more than \<^verbatim>\<open>batch_size\<close>
  samples to the certified loss.  The code with \<^verbatim>\<open>batch_size=1\<close> on three samples:
  the test \<^verbatim>\<open>i > 0\<close> keeps the loop running after the first sample, two samples are
  processed and the sum of their two losses is divided by one.
\<close>

theorem batch_size_one_takes_two_samples:
  "fst (batch_body example_trainer example_certifier example_optimizer
          (LossName ''interval_loss_cce'') (Some 1) (x_cert example_state) 0 example_state) = None
   \<and> certified_loss (snd (batch_body example_trainer example_certifier example_optimizer
          (LossName ''interval_loss_cce'') (Some 1) (x_cert example_state) 0 example_state))
       = ((1 + 1 / 10) + (2 + 1 / 10)) / 1
   \<and> count_list (trace (snd (batch_body example_trainer example_certifier example_optimizer
          (LossName ''interval_loss_cce'') (Some 1) (x_cert example_state) 0 example_state)))
        (SetForwardMode Abstract) = 2"
  by (simp add: batch_body_def sample_body_def example_trainer_def example_certifier_def
      example_state_def example_optimizer_def loss_term_def emit_def Let_def upt_rec
      numeral_2_eq_2 divide_certified_loss_def pgd_part_def select_def batch_indices_def)

subsection \<open>The number of epochs\<close>

text \<open>
  \<^verbatim>\<open>random.shuffle(ind)\<close> is called once at the start of every epoch and nowhere
  else, so the number of these calls in the trace is the number of epochs that were started.
\<close>

lemma sample_body_shuffles:
  "count_list (trace (snd (sample_body T C certification_loss x l s))) RandomShuffle
   = count_list (trace s) RandomShuffle"
  by (auto simp: sample_body_def Let_def emit_def certification_loop_eq count_list_certify
      split: option.splits sum.splits prod.splits)

lemma sample_loop_shuffles:
  "count_list (trace (snd (sample_loop T C certification_loss bs i xs s))) RandomShuffle
   = count_list (trace s) RandomShuffle"
proof (induction xs arbitrary: i s)
  case Nil
  show ?case by simp
next
  case (Cons xl xs)
  obtain x l where xl: "xl = (x, l)" by (cases xl)
  obtain r s1 where b: "sample_body T C certification_loss x l s = (r, s1)"
    by (cases "sample_body T C certification_loss x l s")
  have c: "count_list (trace s1) RandomShuffle = count_list (trace s) RandomShuffle"
    using sample_body_shuffles [of T C certification_loss x l s] by (simp add: b)
  show ?case
    using c Cons.IH [of "Suc i" s1]
    by (auto simp: xl b split: option.splits)
qed

lemma divide_certified_loss_shuffles:
  "count_list (trace (snd (divide_certified_loss bs s))) RandomShuffle
   = count_list (trace s) RandomShuffle"
  by (simp add: divide_certified_loss_def split: option.splits)

lemma pgd_part_shuffles:
  "count_list (trace (snd (pgd_part T C opt data m s))) RandomShuffle
   = count_list (trace s) RandomShuffle"
  by (simp add: pgd_part_def Let_def emit_def split: sum.splits prod.splits)

lemma batch_body_shuffles:
  "count_list (trace (snd (batch_body T C opt certification_loss bs data m s))) RandomShuffle
   = count_list (trace s) RandomShuffle"
proof -
  obtain xy w where sh: "shuffle C (zero_grad opt (world s)) (x_cert s) = (xy, w)"
    by (cases "shuffle C (zero_grad opt (world s)) (x_cert s)")
  let ?s3 = "s\<lparr>certified_loss := 0, samples_certified := 0, world := w, x_cert := xy,
      trace := trace s @ [ZeroGrad, Shuffle]\<rparr>"
  obtain r4 s4 where l: "sample_loop T C certification_loss bs 0 xy ?s3 = (r4, s4)"
    by (cases "sample_loop T C certification_loss bs 0 xy ?s3")
  obtain r5 s5 where d: "divide_certified_loss bs s4 = (r5, s5)"
    by (cases "divide_certified_loss bs s4")
  have "count_list (trace (snd (sample_loop T C certification_loss bs 0 xy ?s3))) RandomShuffle
        = count_list (trace ?s3) RandomShuffle"
    by (rule sample_loop_shuffles)
  then have "count_list (trace s4) RandomShuffle = count_list (trace ?s3) RandomShuffle"
    by (simp only: l snd_conv)
  then have c4: "count_list (trace s4) RandomShuffle = count_list (trace s) RandomShuffle"
    by (simp add: emit_def)
  have c5: "count_list (trace s5) RandomShuffle = count_list (trace s) RandomShuffle"
    using divide_certified_loss_shuffles [of bs s4] by (simp add: d c4)
  show ?thesis
    using c4 c5 pgd_part_shuffles [of T C opt data m s5]
    by (simp add: batch_body_def Let_def emit_def sh l d split: option.splits)
qed

lemma batch_loop_shuffles:
  "count_list (trace (snd (batch_loop T C opt certification_loss bs data ms s))) RandomShuffle
   = count_list (trace s) RandomShuffle"
proof (induction ms arbitrary: s)
  case Nil
  show ?case by simp
next
  case (Cons m ms)
  obtain r s1 where b: "batch_body T C opt certification_loss bs data m s = (r, s1)"
    by (cases "batch_body T C opt certification_loss bs data m s")
  have "count_list (trace s1) RandomShuffle = count_list (trace s) RandomShuffle"
    using batch_body_shuffles [of T C opt certification_loss bs data m s] by (simp add: b)
  then show ?case
    using Cons.IH [of s1] by (simp add: b split: option.splits)
qed

lemma epoch_body_shuffles:
  assumes "epoch_body fl T C opt certification_loss bs scheduler data num_batch s = (None, s')"
  shows "count_list (trace s') RandomShuffle = Suc (count_list (trace s) RandomShuffle)"
proof -
  obtain r1 s1 where a: "advance_bound fl T s = (r1, s1)"
    by (cases "advance_bound fl T s")
  with assms have r1: "r1 = None"
    by (cases r1) (simp_all add: epoch_body_def)
  have c1: "count_list (trace s1) RandomShuffle = count_list (trace s) RandomShuffle"
    using a by (auto simp: advance_bound_def emit_def Let_def split: if_splits option.splits prod.splits)
  obtain ind' w where sh: "random_shuffle C (world s1) (ind s1) = (ind', w)"
    by (cases "random_shuffle C (world s1) (ind s1)")
  let ?s2 = "s1\<lparr>world := w, ind := ind', trace := trace s1 @ [RandomShuffle]\<rparr>"
  obtain r3 s3 where l: "batch_loop T C opt certification_loss bs data [0..<num_batch] ?s2 = (r3, s3)"
    by (cases "batch_loop T C opt certification_loss bs data [0..<num_batch] ?s2")
  have "count_list (trace (snd (batch_loop T C opt certification_loss bs data [0..<num_batch] ?s2)))
          RandomShuffle
        = count_list (trace ?s2) RandomShuffle"
    by (rule batch_loop_shuffles)
  then have "count_list (trace s3) RandomShuffle = count_list (trace ?s2) RandomShuffle"
    by (simp only: l snd_conv)
  then have c3: "count_list (trace s3) RandomShuffle = Suc (count_list (trace s) RandomShuffle)"
    by (simp add: emit_def c1)
  from assms show ?thesis
    using c3 by (auto simp: epoch_body_def a r1 sh l Let_def emit_def split: option.splits if_splits)
qed

lemma epoch_loop_shuffles:
  assumes "epoch_loop fl T C opt certification_loss bs scheduler data num_batch n s = (None, s')"
  shows "count_list (trace s') RandomShuffle = count_list (trace s) RandomShuffle + n"
  using assms
proof (induction n arbitrary: s)
  case 0
  then show ?case by simp
next
  case (Suc n)
  obtain r s1 where b: "epoch_body fl T C opt certification_loss bs scheduler data num_batch s = (r, s1)"
    by (cases "epoch_body fl T C opt certification_loss bs scheduler data num_batch s")
  with Suc.prems have r: "r = None" by (cases r) simp_all
  from Suc.prems have "epoch_loop fl T C opt certification_loss bs scheduler data num_batch n s1 = (None, s')"
    by (simp add: b r)
  from Suc.IH [OF this] epoch_body_shuffles [OF b [unfolded r]]
  show ?case by simp
qed

lemma fit_epochs_run:
  assumes "fit fl T C data certification_loss batch_size' None training_mode scheduler w = (None, s')"
    and "batch_size T = Some n"
  shows "count_list (trace s') RandomShuffle = nat n"
proof -
  have e: "fit_epochs T None = Some n" using assms(2) by (simp add: fit_epochs_def)
  let ?s0 = "fit_init C data training_mode w"
  from assms(1) obtain opt nb s1 where
    s1: "schedule_setup fl T (Some n) ?s0 = (None, s1)"
    and l: "epoch_loop fl T C opt certification_loss (fit_batch_size T batch_size') scheduler data nb (nat n) s1
            = (None, s')"
    by (auto simp: fit_def Let_def e split: option.splits sum.splits prod.splits)
  have "trace s1 = trace ?s0"
    using s1 by (auto simp: schedule_setup_def split: if_splits option.splits sum.splits)
  then have "count_list (trace s1) RandomShuffle = 0"
    by (simp add: fit_init_def)
  with epoch_loop_shuffles [OF l] show ?thesis by simp
qed

lemma advance_bound_shuffles:
  "count_list (trace (snd (advance_bound fl T s))) RandomShuffle
   = count_list (trace s) RandomShuffle"
  by (auto simp: advance_bound_def emit_def Let_def split: if_splits option.splits prod.splits)

lemma epoch_body_shuffles_le:
  "count_list (trace (snd (epoch_body fl T C opt certification_loss bs scheduler data num_batch s)))
     RandomShuffle
   \<le> Suc (count_list (trace s) RandomShuffle)"
proof -
  obtain r1 s1 where a: "advance_bound fl T s = (r1, s1)"
    by (cases "advance_bound fl T s")
  have c1: "count_list (trace s1) RandomShuffle = count_list (trace s) RandomShuffle"
    using advance_bound_shuffles [of fl T s] by (simp add: a)
  obtain ind' w where sh: "random_shuffle C (world s1) (ind s1) = (ind', w)"
    by (cases "random_shuffle C (world s1) (ind s1)")
  let ?s2 = "s1\<lparr>world := w, ind := ind', trace := trace s1 @ [RandomShuffle]\<rparr>"
  obtain r3 s3 where l: "batch_loop T C opt certification_loss bs data [0..<num_batch] ?s2 = (r3, s3)"
    by (cases "batch_loop T C opt certification_loss bs data [0..<num_batch] ?s2")
  have "count_list (trace (snd (batch_loop T C opt certification_loss bs data [0..<num_batch] ?s2)))
          RandomShuffle
        = count_list (trace ?s2) RandomShuffle"
    by (rule batch_loop_shuffles)
  then have "count_list (trace s3) RandomShuffle = count_list (trace ?s2) RandomShuffle"
    by (simp only: l snd_conv)
  then have c3: "count_list (trace s3) RandomShuffle = Suc (count_list (trace s) RandomShuffle)"
    by (simp add: emit_def c1)
  show ?thesis
    using c1 c3 by (auto simp: epoch_body_def a sh l Let_def emit_def split: option.splits if_splits)
qed

lemma epoch_loop_shuffles_le:
  "count_list (trace (snd (epoch_loop fl T C opt certification_loss bs scheduler data num_batch n s)))
     RandomShuffle
   \<le> count_list (trace s) RandomShuffle + n"
proof (induction n arbitrary: s)
  case 0
  show ?case by simp
next
  case (Suc n)
  obtain r s1 where b: "epoch_body fl T C opt certification_loss bs scheduler data num_batch s = (r, s1)"
    by (cases "epoch_body fl T C opt certification_loss bs scheduler data num_batch s")
  have c: "count_list (trace s1) RandomShuffle \<le> Suc (count_list (trace s) RandomShuffle)"
    using epoch_body_shuffles_le [of fl T C opt certification_loss bs scheduler data num_batch s]
    by (simp add: b)
  show ?case
  proof (cases r)
    case None
    with Suc.IH [of s1] c show ?thesis by (simp add: b)
  next
    case (Some e)
    with c show ?thesis by (simp add: b)
  qed
qed

lemma schedule_setup_trace:
  "trace (snd (schedule_setup fl T e s)) = trace s"
  by (auto simp: schedule_setup_def split: if_splits option.splits sum.splits)

lemma fit_shuffles_le:
  "count_list (trace (snd (fit fl T C data certification_loss batch_size' nb_epochs' training_mode
      scheduler w))) RandomShuffle
   \<le> (case fit_epochs T nb_epochs' of None \<Rightarrow> 0 | Some n \<Rightarrow> nat n)"
proof -
  let ?s0 = "fit_init C data training_mode w"
  have z: "count_list (trace ?s0) RandomShuffle = 0" by (simp add: fit_init_def)
  obtain r1 s1 where s1: "schedule_setup fl T (fit_epochs T nb_epochs') ?s0 = (r1, s1)"
    by (cases "schedule_setup fl T (fit_epochs T nb_epochs') ?s0")
  have z1: "count_list (trace s1) RandomShuffle = 0"
    using schedule_setup_trace [of fl T "fit_epochs T nb_epochs'" ?s0] z by (simp add: s1)
  show ?thesis
  proof (cases "optimizer C")
    case None
    then show ?thesis using z by (simp add: fit_def Let_def)
  next
    case (Some opt)
    show ?thesis
    proof (cases "fit_num_batch T (length data)")
      case (Inl e)
      then show ?thesis using z by (simp add: fit_def Let_def Some)
    next
      case (Inr nb)
      show ?thesis
      proof (cases r1)
        case (Some e)
        then show ?thesis using z1 by (simp add: fit_def Let_def \<open>optimizer C = Some opt\<close> Inr s1)
      next
        case None
        show ?thesis
        proof (cases "fit_epochs T nb_epochs'")
          case None
          then show ?thesis
            using z1 s1 by (simp add: fit_def Let_def \<open>optimizer C = Some opt\<close> Inr \<open>r1 = None\<close>)
        next
          case (Some n)
          have "count_list (trace (snd (epoch_loop fl T C opt certification_loss
                  (fit_batch_size T batch_size') scheduler data nb (nat n) s1))) RandomShuffle
                \<le> count_list (trace s1) RandomShuffle + nat n"
            by (rule epoch_loop_shuffles_le)
          then show ?thesis
            using z1 s1 by (simp add: fit_def Let_def \<open>optimizer C = Some opt\<close> Inr \<open>r1 = None\<close> Some)
        qed
      qed
    qed
  qed
qed

lemma fit_unbound_epochs:
  assumes "fit_epochs T nb_epochs' = None"
  shows "fst (fit fl T C data certification_loss batch_size' nb_epochs' training_mode scheduler w)
         \<noteq> None"
  using assms
  by (auto simp: fit_def Let_def split: option.splits sum.splits prod.splits)

text \<open>
  Claim C10, as amended.  Where \<^verbatim>\<open>fit\<close> is called without \<^verbatim>\<open>nb_epochs\<close>, the
  number of epochs is taken from the \<^verbatim>\<open>batch_size\<close> given to the constructor of the
  trainer, and the \<^verbatim>\<open>nb_epochs\<close> of the constructor is not read.  The loop runs over
  \<^verbatim>\<open>range(self.batch_size)\<close>: a call that returns has started
  \<open>max 0 batch_size\<close> epochs, which is \<^verbatim>\<open>batch_size\<close> only if that is not negative,
  and a call that raises has started at most as many.  Where the \<^verbatim>\<open>batch_size\<close> of the
  constructor is \<^verbatim>\<open>None\<close> too, \<^verbatim>\<open>fit\<close> raises before the first epoch.
\<close>

theorem fit_epochs_batch_size:
  "case batch_size T of
     None \<Rightarrow>
       fit_epochs T None = None
       \<and> fst (fit fl T C data certification_loss batch_size' None training_mode scheduler w) \<noteq> None
       \<and> count_list
           (trace (snd (fit fl T C data certification_loss batch_size' None training_mode scheduler w)))
           RandomShuffle = 0
   | Some n \<Rightarrow>
       fit_epochs T None = Some n
       \<and> count_list
           (trace (snd (fit fl T C data certification_loss batch_size' None training_mode scheduler w)))
           RandomShuffle \<le> nat n
       \<and> (fst (fit fl T C data certification_loss batch_size' None training_mode scheduler w) = None
            \<longrightarrow> count_list
                  (trace (snd (fit fl T C data certification_loss batch_size' None training_mode
                     scheduler w)))
                  RandomShuffle = nat n)"
proof (cases "batch_size T")
  case None
  then have e: "fit_epochs T None = None" by (simp add: fit_epochs_def)
  from fit_unbound_epochs [OF e]
    fit_shuffles_le [of fl T C data certification_loss batch_size' None training_mode scheduler w]
  show ?thesis by (simp add: None e)
next
  case (Some n)
  then have e: "fit_epochs T None = Some n" by (simp add: fit_epochs_def)
  let ?r = "fit fl T C data certification_loss batch_size' None training_mode scheduler w"
  have le: "count_list (trace (snd ?r)) RandomShuffle \<le> nat n"
    using fit_shuffles_le [of fl T C data certification_loss batch_size' None training_mode
        scheduler w] by (simp add: e)
  have eq: "count_list (trace (snd ?r)) RandomShuffle = nat n" if h: "fst ?r = None"
  proof -
    obtain s' where r: "?r = (None, s')" using h by (cases ?r) auto
    from fit_epochs_run [OF r Some] show ?thesis by (simp add: r)
  qed
  from e le eq show ?thesis by (simp add: Some)
qed

lemma example_fit:
  "fst (fit round_binary64 example_trainer example_certifier [(1, 0), (2, 1)]
     (LossName ''interval_loss_cce'') None None True False 0) = None"
  by (simp add: fit_def fit_init_def fit_num_batch_def schedule_setup_def fit_epochs_def
      fit_batch_size_def epoch_body_def advance_bound_def
      batch_body_def sample_body_def example_trainer_def example_certifier_def
      example_optimizer_def loss_term_def emit_def Let_def upt_rec
      numeral_2_eq_2 divide_certified_loss_def pgd_part_def select_def batch_indices_def)

text \<open>
  The theorem at the example trainer, constructed with twenty epochs and the batch size
  two: two epochs are run.
\<close>

theorem fit_epochs_batch_size_witness:
  "batch_size example_trainer = Some 2
   \<and> nb_epochs example_trainer = Some 20
   \<and> fst (fit round_binary64 example_trainer example_certifier [(1, 0), (2, 1)]
        (LossName ''interval_loss_cce'') None None True False 0) = None
   \<and> fit_epochs example_trainer None = Some 2
   \<and> count_list
        (trace (snd (fit round_binary64 example_trainer example_certifier [(1, 0), (2, 1)]
           (LossName ''interval_loss_cce'') None None True False 0)))
        RandomShuffle = 2"
proof -
  have b: "batch_size example_trainer = Some 2" and n: "nb_epochs example_trainer = Some 20"
    by (simp_all add: example_trainer_def)
  from fit_epochs_batch_size [of example_trainer round_binary64 example_certifier
      "[(1, 0), (2, 1)]" "LossName ''interval_loss_cce''" None True False 0] example_fit b n
  show ?thesis by simp
qed

text \<open>
  Claim C10 as stated fails: a trainer constructed with \<^verbatim>\<open>batch_size=-3\<close> runs no
  epoch, and \<^verbatim>\<open>fit\<close> returns.
\<close>

theorem fit_negative_batch_size:
  "batch_size (example_trainer\<lparr>batch_size := Some (- 3)\<rparr>) = Some (- 3)
   \<and> fit round_binary64 (example_trainer\<lparr>batch_size := Some (- 3)\<rparr>) example_certifier
        [(1, 0), (2, 1)] (LossName ''interval_loss_cce'') None None True False 0
      = (None, (fit_init example_certifier [(1, 0), (2, 1)] True 0)
                 \<lparr>fit_state.bound := Some (Finite (1 / 10))\<rparr>)
   \<and> count_list
        (trace ((fit_init example_certifier [(1, 0), (2, 1)] True 0)
                  \<lparr>fit_state.bound := Some (Finite (1 / 10))\<rparr>))
        RandomShuffle = 0"
  by (simp add: fit_def fit_init_def fit_num_batch_def schedule_setup_def fit_epochs_def
      fit_batch_size_def example_trainer_def example_certifier_def Let_def emit_def)

end
